theory Spec2Isabelle
  imports Main
begin

section \<open>Notebook documents and the Python operations applied to them\<close>

text \<open>
  A notebook is whatever \<^verbatim>\<open>json.load\<close> returns, so the graders of
  \<^verbatim>\<open>rnaseq_grader.py\<close> work on untyped values. A JSON object is kept as the list
  of its items in insertion order (a Python dict: the keys are distinct). Numbers are
  never computed with, so one constructor stands for both integers and floats.
\<close>

datatype json =
    JNull
  | JBool bool
  | JNum int
  | JStr string
  | JArr "json list"
  | JObj "(string \<times> json) list"

text \<open>
  The exceptions the graders can raise. \<open>LoadError\<close> stands for whatever
  \<^verbatim>\<open>open\<close> and \<^verbatim>\<open>json.load\<close> raise (missing file, undecodable bytes, invalid JSON).
\<close>

datatype py_error = KeyError | TypeError | AttributeError | LoadError

type_synonym 'a result = "py_error + 'a"

text \<open>Sequencing of two steps: the second runs only if the first did not raise.\<close>

definition pybind :: "'a result \<Rightarrow> ('a \<Rightarrow> 'b result) \<Rightarrow> 'b result" where
  "pybind m f = (case m of Inl e \<Rightarrow> Inl e | Inr v \<Rightarrow> f v)"

text \<open>\<^verbatim>\<open>x[key]\<close> with a string key: only a dict can be subscripted by a string.\<close>

definition py_getitem :: "json \<Rightarrow> string \<Rightarrow> json result" where
  "py_getitem x key =
     (case x of
        JObj items \<Rightarrow> (case map_of items key of None \<Rightarrow> Inl KeyError | Some v \<Rightarrow> Inr v)
      | _ \<Rightarrow> Inl TypeError)"

text \<open>\<^verbatim>\<open>x.get(key, default)\<close>: only a dict has the method.\<close>

definition py_get :: "json \<Rightarrow> string \<Rightarrow> json \<Rightarrow> json result" where
  "py_get x key dflt =
     (case x of
        JObj items \<Rightarrow> (case map_of items key of None \<Rightarrow> Inr dflt | Some v \<Rightarrow> Inr v)
      | _ \<Rightarrow> Inl AttributeError)"

fun str_items :: "json list \<Rightarrow> string list option" where
  "str_items [] = Some []"
| "str_items (JStr s # xs) = map_option ((#) s) (str_items xs)"
| "str_items (_ # xs) = None"

text \<open>
  \<^verbatim>\<open>"".join(x)\<close>: a string is joined character by character (giving itself), a list
  must hold strings only, a dict is iterated by its keys.
\<close>

definition py_join :: "json \<Rightarrow> string result" where
  "py_join x =
     (case x of
        JStr s \<Rightarrow> Inr s
      | JArr xs \<Rightarrow> (case str_items xs of None \<Rightarrow> Inl TypeError | Some ss \<Rightarrow> Inr (concat ss))
      | JObj items \<Rightarrow> Inr (concat (map fst items))
      | _ \<Rightarrow> Inl TypeError)"

text \<open>\<^verbatim>\<open>len(x)\<close>.\<close>

definition py_len :: "json \<Rightarrow> nat result" where
  "py_len x =
     (case x of
        JStr s \<Rightarrow> Inr (length s)
      | JArr xs \<Rightarrow> Inr (length xs)
      | JObj items \<Rightarrow> Inr (length items)
      | _ \<Rightarrow> Inl TypeError)"

text \<open>The elements a \<^verbatim>\<open>for\<close> loop over \<open>x\<close> visits.\<close>

definition py_iter :: "json \<Rightarrow> json list result" where
  "py_iter x =
     (case x of
        JArr xs \<Rightarrow> Inr xs
      | JStr s \<Rightarrow> Inr (map (\<lambda>c. JStr [c]) s)
      | JObj items \<Rightarrow> Inr (map (\<lambda>kv. JStr (fst kv)) items)
      | _ \<Rightarrow> Inl TypeError)"

subsection \<open>Strings\<close>

text \<open>
  A Python \<^verbatim>\<open>str\<close> is modelled as a list of characters with code points below 256.
  In that range \<^verbatim>\<open>str.strip\<close> and the pattern class \<^verbatim>\<open>\s\<close> remove the same
  characters, and \<^verbatim>\<open>\d\<close> is the ten ASCII digits.
\<close>

definition is_space :: "char \<Rightarrow> bool" where
  "is_space c = ((of_char c :: nat) \<in> {9, 10, 11, 12, 13, 28, 29, 30, 31, 32, 133, 160})"

definition is_digit :: "char \<Rightarrow> bool" where
  "is_digit c = (48 \<le> (of_char c :: nat) \<and> (of_char c :: nat) \<le> 57)"

definition is_lower_az :: "char \<Rightarrow> bool" where
  "is_lower_az c = (97 \<le> (of_char c :: nat) \<and> (of_char c :: nat) \<le> 122)"

definition py_strip :: "string \<Rightarrow> string" where
  "py_strip s = rev (dropWhile is_space (rev (dropWhile is_space s)))"

definition startswith :: "string \<Rightarrow> string \<Rightarrow> bool" where
  "startswith s p = (take (length p) s = p)"

text \<open>\<^verbatim>\<open>s.find(c)\<close> for a single character: \<open>None\<close> is Python's \<open>-1\<close>.\<close>

fun py_find :: "string \<Rightarrow> char \<Rightarrow> nat option" where
  "py_find [] c = None"
| "py_find (x # xs) c = (if x = c then Some 0 else map_option Suc (py_find xs c))"

text \<open>\<^verbatim>\<open>p in s\<close> for strings.\<close>

fun py_in :: "string \<Rightarrow> string \<Rightarrow> bool" where
  "py_in p [] = (p = [])"
| "py_in p (x # xs) = (startswith (x # xs) p \<or> py_in p xs)"

text \<open>\<^verbatim>\<open>s.split('\n')\<close>.\<close>

fun split_nl :: "string \<Rightarrow> string list" where
  "split_nl [] = [[]]"
| "split_nl (c # cs) =
     (if c = CHR 0x0A then [] # split_nl cs
      else (case split_nl cs of [] \<Rightarrow> [[c]] | l # ls \<Rightarrow> (c # l) # ls))"

section \<open>The unit classifier\<close>

text \<open>\<^verbatim>\<open>"".join(cell.get("source", []))\<close>.\<close>

definition cell_source :: "json \<Rightarrow> string result" where
  "cell_source cell = pybind (py_get cell ''source'' (JArr [])) py_join"

text \<open>
  \<^verbatim>\<open>has_content\<close>. The conjunction of the code branch is evaluated left to
  right, so \<^verbatim>\<open>len(outputs)\<close> is taken (and may raise) only for a non-empty
  source.
\<close>

definition has_content :: "json \<Rightarrow> bool result" where
  "has_content cell =
     pybind (cell_source cell) (\<lambda>joined.
       let source = py_strip joined in
       if startswith source ''Question'' then
         (case py_find source CHR '':'' of
            Some colon_pos \<Rightarrow> Inr (0 < length (py_strip (drop (colon_pos + 1) source)))
          | None \<Rightarrow> Inr False)
       else
         pybind (py_getitem cell ''cell_type'') (\<lambda>cell_type.
           if cell_type = JStr ''code'' then
             pybind (py_get cell ''outputs'' (JArr [])) (\<lambda>outputs.
             pybind (py_get cell ''execution_count'' JNull) (\<lambda>execution_count.
               if 0 < length source then
                 pybind (py_len outputs) (\<lambda>n. Inr (0 < n \<or> execution_count \<noteq> JNull))
               else Inr False))
           else if cell_type = JStr ''markdown'' then Inr (0 < length source)
           else if cell_type = JStr ''raw'' then Inr (0 < length source)
           else Inr False))"

section \<open>Header patterns\<close>

text \<open>
  The regular expressions of the graders, each written as the one way the pattern can
  match: the classes \<^verbatim>\<open>\s\<close>, \<^verbatim>\<open>#\<close>, \<^verbatim>\<open>\d\<close>, \<^verbatim>\<open>[a-z]\<close> and \<^verbatim>\<open>\.\<close> are
  pairwise disjoint, so every greedy repetition takes its whole run and backtracking
  finds nothing more. Each function returns \<^verbatim>\<open>group(1)\<close> of the match.
\<close>

text \<open>The tail \<^verbatim>\<open>\.?\s+\<close> of every pattern.\<close>

fun dot_space :: "string \<Rightarrow> bool" where
  "dot_space [] = False"
| "dot_space (c # cs) =
     (if c = CHR ''.'' then (case cs of [] \<Rightarrow> False | d # _ \<Rightarrow> is_space d) else is_space c)"

definition is_hash :: "char \<Rightarrow> bool" where
  "is_hash c = (c = CHR ''#'')"

text \<open>\<^verbatim>\<open>re.search(r'^\s*#+\s+(\d+)\.?\s+', line)\<close>.\<close>

definition re_main :: "string \<Rightarrow> string option" where
  "re_main line =
     (let r1 = dropWhile is_space line;
          hashes = takeWhile is_hash r1;
          r2 = dropWhile is_hash r1;
          spaces = takeWhile is_space r2;
          r3 = dropWhile is_space r2;
          digits = takeWhile is_digit r3;
          r4 = dropWhile is_digit r3
      in if hashes \<noteq> [] \<and> spaces \<noteq> [] \<and> digits \<noteq> [] \<and> dot_space r4
         then Some digits else None)"

text \<open>The group \<^verbatim>\<open>(\d+[a-z])\<close> followed by \<^verbatim>\<open>\.?\s+\<close>, matched at \<open>r\<close>.\<close>

definition digits_letter :: "string \<Rightarrow> string option" where
  "digits_letter r =
     (let digits = takeWhile is_digit r in
      case dropWhile is_digit r of
        [] \<Rightarrow> None
      | c # r5 \<Rightarrow>
          if digits \<noteq> [] \<and> is_lower_az c \<and> dot_space r5 then Some (digits @ [c]) else None)"

text \<open>\<^verbatim>\<open>re.search(r'^\s*#+\s+(\d+[a-z])\.?\s+', line)\<close>.\<close>

definition re_sub :: "string \<Rightarrow> string option" where
  "re_sub line =
     (let r1 = dropWhile is_space line;
          hashes = takeWhile is_hash r1;
          r2 = dropWhile is_hash r1;
          spaces = takeWhile is_space r2;
          r3 = dropWhile is_space r2
      in if hashes \<noteq> [] \<and> spaces \<noteq> [] then digits_letter r3 else None)"

text \<open>\<^verbatim>\<open>re.search(r'^\s*###\s+(\d+[a-z])\.?\s+', line)\<close>.\<close>

definition re_sub3 :: "string \<Rightarrow> string option" where
  "re_sub3 line =
     (let r1 = dropWhile is_space line;
          r2 = drop 3 r1;
          spaces = takeWhile is_space r2;
          r3 = dropWhile is_space r2
      in if startswith r1 ''###'' \<and> spaces \<noteq> [] then digits_letter r3 else None)"

text \<open>\<^verbatim>\<open>re.match(r'^#+\s*(\d+[a-z]?)\.?\s+', s)\<close>.\<close>

definition re_simple :: "string \<Rightarrow> string option" where
  "re_simple s =
     (let hashes = takeWhile is_hash s;
          r2 = dropWhile is_hash s;
          r3 = dropWhile is_space r2;
          digits = takeWhile is_digit r3;
          r4 = dropWhile is_digit r3;
          letter = (case r4 of [] \<Rightarrow> [] | c # _ \<Rightarrow> if is_lower_az c then [c] else []);
          r5 = drop (length letter) r4
      in if hashes \<noteq> [] \<and> digits \<noteq> [] \<and> dot_space r5
         then Some (digits @ letter) else None)"

subsection \<open>What the patterns match\<close>

text \<open>
  The patterns once more, as the splits of the line that a match amounts to. The four
  functions above are shown below to return \<open>g\<close> exactly when the pattern matches with
  group \<open>g\<close>; so the group does not depend on the order in which a matcher tries the
  splits.
\<close>

text \<open>Every character of a string is in a class.\<close>

definition all_chars :: "(char \<Rightarrow> bool) \<Rightarrow> string \<Rightarrow> bool" where
  "all_chars P xs = (\<forall>c \<in> set xs. P c)"

text \<open>What \<^verbatim>\<open>\.?\<close> can match.\<close>

definition dot_opt :: "string \<Rightarrow> bool" where
  "dot_opt d = (d = [] \<or> d = ''.'')"

text \<open>
  \<^verbatim>\<open>^\s*#+\s+(\d+)\.?\s+\<close> matches a prefix of \<open>line\<close> with the group \<open>g\<close>.
\<close>

definition matches_main :: "string \<Rightarrow> string \<Rightarrow> bool" where
  "matches_main line g =
     (\<exists>ws hs sp dot sp2 rest.
        line = ws @ hs @ sp @ g @ dot @ sp2 @ rest \<and>
        all_chars is_space ws \<and> hs \<noteq> [] \<and> all_chars is_hash hs \<and> sp \<noteq> [] \<and> all_chars is_space sp \<and>
        g \<noteq> [] \<and> all_chars is_digit g \<and> dot_opt dot \<and> sp2 \<noteq> [] \<and> all_chars is_space sp2)"

text \<open>What the group \<^verbatim>\<open>(\d+[a-z])\<close> can match.\<close>

definition digits_letter_group :: "string \<Rightarrow> bool" where
  "digits_letter_group g =
     (\<exists>ds l. g = ds @ [l] \<and> ds \<noteq> [] \<and> all_chars is_digit ds \<and> is_lower_az l)"

text \<open>\<^verbatim>\<open>^\s*#+\s+(\d+[a-z])\.?\s+\<close>.\<close>

definition matches_sub :: "string \<Rightarrow> string \<Rightarrow> bool" where
  "matches_sub line g =
     (\<exists>ws hs sp dot sp2 rest.
        line = ws @ hs @ sp @ g @ dot @ sp2 @ rest \<and>
        all_chars is_space ws \<and> hs \<noteq> [] \<and> all_chars is_hash hs \<and> sp \<noteq> [] \<and> all_chars is_space sp \<and>
        digits_letter_group g \<and> dot_opt dot \<and> sp2 \<noteq> [] \<and> all_chars is_space sp2)"

text \<open>\<^verbatim>\<open>^\s*###\s+(\d+[a-z])\.?\s+\<close>.\<close>

definition matches_sub3 :: "string \<Rightarrow> string \<Rightarrow> bool" where
  "matches_sub3 line g =
     (\<exists>ws sp dot sp2 rest.
        line = ws @ ''###'' @ sp @ g @ dot @ sp2 @ rest \<and>
        all_chars is_space ws \<and> sp \<noteq> [] \<and> all_chars is_space sp \<and>
        digits_letter_group g \<and> dot_opt dot \<and> sp2 \<noteq> [] \<and> all_chars is_space sp2)"

text \<open>\<^verbatim>\<open>^#+\s*(\d+[a-z]?)\.?\s+\<close>.\<close>

definition matches_simple :: "string \<Rightarrow> string \<Rightarrow> bool" where
  "matches_simple s g =
     (\<exists>hs sp ds l dot sp2 rest.
        s = hs @ sp @ g @ dot @ sp2 @ rest \<and>
        hs \<noteq> [] \<and> all_chars is_hash hs \<and> all_chars is_space sp \<and>
        g = ds @ l \<and> ds \<noteq> [] \<and> all_chars is_digit ds \<and> (l = [] \<or> (\<exists>c. l = [c] \<and> is_lower_az c)) \<and>
        dot_opt dot \<and> sp2 \<noteq> [] \<and> all_chars is_space sp2)"

section \<open>Rubrics and results\<close>

text \<open>
  A section descriptor of a rubric: a dict (its \<^verbatim>\<open>name\<close> entry is never read by the
  graders) or a plain point value. Expected counts are unit counts, hence natural
  numbers. An absent dict entry is \<open>None\<close>.
\<close>

record descr =
  code_cells :: "nat option"
  raw_cells :: "nat option"
  points :: "nat option"
  special :: "string option"

datatype expected = Number nat | Dict descr

text \<open>
  \<^verbatim>\<open>expected_config\<close>: the \<^verbatim>\<open>sections\<close> dict as the list of its items in
  rubric order.
\<close>

record expected_config =
  asset_id :: "string option"
  sections :: "(string \<times> expected) list"

text \<open>\<^verbatim>\<open>key in expected_config['sections']\<close>.\<close>

definition in_rubric :: "expected_config \<Rightarrow> string \<Rightarrow> bool" where
  "in_rubric cfg key = (map_of (sections cfg) key \<noteq> None)"

text \<open>
  One entry of \<^verbatim>\<open>results['sections']\<close>: a plain earned count, or the dict with
  the code/raw split.
\<close>

datatype section_score =
    Earned nat
  | Split_score (code: nat) (raw: nat) (total: nat)
      (expected_code: nat) (expected_raw: nat) (expected_total: nat)

text \<open>
  One entry of \<^verbatim>\<open>results['missed_indices']\<close>: a list in the two specialised
  graders, a dict with a \<^verbatim>\<open>code\<close> and a \<^verbatim>\<open>raw\<close> list in the default one.
\<close>

datatype missed = Missed_list "nat list" | Missed_split "nat list" "nat list"

text \<open>
  The dict a grader returns. \<^verbatim>\<open>missed_indices\<close> is absent from the error result
  and \<^verbatim>\<open>issues\<close> from every other one; a key of \<^verbatim>\<open>missed_indices\<close> can be
  Python's \<^verbatim>\<open>None\<close>.
\<close>

record grading_result =
  r_sections :: "string \<rightharpoonup> section_score"
  r_total_points :: nat
  r_missed_indices :: "(string option \<rightharpoonup> missed) option"
  r_issues :: "string list option"

text \<open>Python's truth value of a variable that holds \<^verbatim>\<open>None\<close> or a string.\<close>

definition truthy :: "string option \<Rightarrow> bool" where
  "truthy v = (case v of None \<Rightarrow> False | Some s \<Rightarrow> s \<noteq> [])"

text \<open>\<^verbatim>\<open>str.lower\<close> on code points below 256.\<close>

definition py_lower :: "string \<Rightarrow> string" where
  "py_lower s =
     map (\<lambda>c. let n = (of_char c :: nat) in
            if (65 \<le> n \<and> n \<le> 90) \<or> (192 \<le> n \<and> n \<le> 222 \<and> n \<noteq> 215)
            then char_of (n + 32) else c) s"

section \<open>The default grader\<close>

text \<open>
  The local variables of \<^verbatim>\<open>grade_notebook_enhanced\<close> that the scan reads and
  updates. \<open>missed_indices\<close> is \<^verbatim>\<open>results['missed_indices']\<close>, each entry the pair
  of its \<^verbatim>\<open>code\<close> and \<^verbatim>\<open>raw\<close> lists. (\<^verbatim>\<open>sections_found\<close> is written for
  debugging and never read.)
\<close>

record tracking =
  current_section :: "string option"
  current_subsection :: "string option"
  section_completed_code :: "string \<rightharpoonup> nat"
  section_cell_counts_code :: "string \<rightharpoonup> nat"
  section_completed_raw :: "string \<rightharpoonup> nat"
  section_cell_counts_raw :: "string \<rightharpoonup> nat"
  missed_indices :: "string \<rightharpoonup> nat list \<times> nat list"

definition initial_tracking :: tracking where
  "initial_tracking =
     \<lparr>current_section = None, current_subsection = None,
      section_completed_code = Map.empty, section_cell_counts_code = Map.empty,
      section_completed_raw = Map.empty, section_cell_counts_raw = Map.empty,
      missed_indices = Map.empty\<rparr>"

text \<open>
  \<^verbatim>\<open>'02-rnaseq_analysis' in asset_id.lower()\<close>, with
  \<^verbatim>\<open>asset_id = expected_config.get('asset_id', '').lower()\<close>.
\<close>

definition is_analysis_notebook :: "expected_config \<Rightarrow> bool" where
  "is_analysis_notebook cfg =
     py_in ''02-rnaseq_analysis''
       (py_lower (py_lower (case asset_id cfg of None \<Rightarrow> [] | Some a \<Rightarrow> a)))"

text \<open>"Initialize section tracking if needed", the same five assignments at each header.\<close>

definition init_tracking :: "expected_config \<Rightarrow> string \<Rightarrow> tracking \<Rightarrow> tracking" where
  "init_tracking cfg key st =
     (if in_rubric cfg key \<and> section_completed_code st key = None then
        st\<lparr>section_completed_code := (section_completed_code st)(key \<mapsto> 0),
           section_cell_counts_code := (section_cell_counts_code st)(key \<mapsto> 0),
           section_completed_raw := (section_completed_raw st)(key \<mapsto> 0),
           section_cell_counts_raw := (section_cell_counts_raw st)(key \<mapsto> 0),
           missed_indices := (missed_indices st)(key \<mapsto> ([], []))\<rparr>
      else st)"

text \<open>What one line adds to \<^verbatim>\<open>main_sections\<close>, in either header dialect.\<close>

definition main_header :: "bool \<Rightarrow> string \<Rightarrow> string option" where
  "main_header analysis line =
     (if analysis then re_main line
      else if startswith (py_strip line) ''#'' \<and> \<not> startswith (py_strip line) ''###''
           then re_main line
      else None)"

text \<open>What one line adds to \<^verbatim>\<open>subsections\<close>.\<close>

definition sub_header :: "bool \<Rightarrow> string \<Rightarrow> string option" where
  "sub_header analysis line =
     (if analysis then re_sub line
      else if startswith (py_strip line) ''#'' \<and> \<not> startswith (py_strip line) ''###''
           then None
      else if startswith (py_strip line) ''###'' then re_sub3 line
      else None)"

definition main_sections :: "bool \<Rightarrow> string \<Rightarrow> string list" where
  "main_sections analysis source =
     map (\<lambda>g. g @ ''.'') (List.map_filter (main_header analysis) (split_nl source))"

definition subsections :: "bool \<Rightarrow> string \<Rightarrow> string list" where
  "subsections analysis source =
     map (\<lambda>g. g @ ''.'') (List.map_filter (sub_header analysis) (split_nl source))"

text \<open>The test for the section 2 header that sits in an anchor tag.\<close>

definition deseq_anchor :: "string \<Rightarrow> bool" where
  \<open>deseq_anchor source =
     (py_in ''<a class="anchor" id="deseq"></a>'' source \<and> py_in ''# 2. DESeq2'' source)\<close>

text \<open>
  The markdown branch of the loop body: the header updates of one cell. \<open>analysis\<close>
  is \<^verbatim>\<open>is_analysis_notebook\<close>, computed once before the loop.
\<close>

definition mark_headers :: "bool \<Rightarrow> expected_config \<Rightarrow> string \<Rightarrow> tracking \<Rightarrow> tracking" where
  "mark_headers analysis cfg source st =
     (let st1 = (if deseq_anchor source
                 then init_tracking cfg ''2.'' (st\<lparr>current_section := Some ''2.''\<rparr>)
                 else st);
          mains = main_sections analysis source;
          subs = subsections analysis source;
          st2 = (if mains \<noteq> []
                 then init_tracking cfg (last mains) (st1\<lparr>current_section := Some (last mains)\<rparr>)
                 else st1)
      in if subs \<noteq> []
         then init_tracking cfg (last subs) (st2\<lparr>current_subsection := Some (last subs)\<rparr>)
         else st2)"

text \<open>
  \<^verbatim>\<open>active_section = current_subsection if current_subsection else current_section\<close>
\<close>

definition active_section :: "tracking \<Rightarrow> string option" where
  "active_section st =
     (if truthy (current_subsection st) then current_subsection st else current_section st)"

text \<open>The code branch of the count: \<^verbatim>\<open>d[k] += 1\<close> raises on a key not in \<open>d\<close>.\<close>

definition count_code :: "string \<Rightarrow> json \<Rightarrow> tracking \<Rightarrow> tracking result" where
  "count_code a cell st =
     (case section_cell_counts_code st a of
        None \<Rightarrow> Inl KeyError
      | Some n \<Rightarrow>
          let st1 = st\<lparr>section_cell_counts_code := (section_cell_counts_code st)(a \<mapsto> Suc n)\<rparr> in
          pybind (has_content cell) (\<lambda>complete.
            if complete then
              (case section_completed_code st1 a of
                 None \<Rightarrow> Inl KeyError
               | Some m \<Rightarrow>
                   Inr (st1\<lparr>section_completed_code := (section_completed_code st1)(a \<mapsto> Suc m)\<rparr>))
            else
              (case missed_indices st1 a of
                 None \<Rightarrow> Inl KeyError
               | Some (mc, mr) \<Rightarrow>
                   Inr (st1\<lparr>missed_indices := (missed_indices st1)(a \<mapsto> (mc @ [Suc n], mr))\<rparr>))))"

definition count_raw :: "string \<Rightarrow> json \<Rightarrow> tracking \<Rightarrow> tracking result" where
  "count_raw a cell st =
     (case section_cell_counts_raw st a of
        None \<Rightarrow> Inl KeyError
      | Some n \<Rightarrow>
          let st1 = st\<lparr>section_cell_counts_raw := (section_cell_counts_raw st)(a \<mapsto> Suc n)\<rparr> in
          pybind (has_content cell) (\<lambda>complete.
            if complete then
              (case section_completed_raw st1 a of
                 None \<Rightarrow> Inl KeyError
               | Some m \<Rightarrow>
                   Inr (st1\<lparr>section_completed_raw := (section_completed_raw st1)(a \<mapsto> Suc m)\<rparr>))
            else
              (case missed_indices st1 a of
                 None \<Rightarrow> Inl KeyError
               | Some (mc, mr) \<Rightarrow>
                   Inr (st1\<lparr>missed_indices := (missed_indices st1)(a \<mapsto> (mc, mr @ [Suc n]))\<rparr>))))"

text \<open>The second half of the loop body: attribution of the cell to the active section.\<close>

definition count_cell :: "expected_config \<Rightarrow> json \<Rightarrow> json \<Rightarrow> tracking \<Rightarrow> tracking result" where
  "count_cell cfg cell cell_type st =
     (case active_section st of
        None \<Rightarrow> Inr st
      | Some a \<Rightarrow>
          if a \<noteq> [] \<and> in_rubric cfg a then
            (if cell_type = JStr ''code'' then count_code a cell st
             else if cell_type = JStr ''raw'' then count_raw a cell st
             else Inr st)
          else Inr st)"

text \<open>The body of the loop over the cells.\<close>

definition enhanced_cell ::
  "bool \<Rightarrow> expected_config \<Rightarrow> json \<Rightarrow> tracking \<Rightarrow> tracking result" where
  "enhanced_cell analysis cfg cell st =
     pybind (py_getitem cell ''cell_type'') (\<lambda>cell_type.
       pybind (if cell_type = JStr ''markdown''
               then pybind (cell_source cell) (\<lambda>source. Inr (mark_headers analysis cfg source st))
               else Inr st)
         (count_cell cfg cell cell_type))"

text \<open>A loop over the cells that stops at the first exception.\<close>

fun run_cells :: "(json \<Rightarrow> 's \<Rightarrow> 's result) \<Rightarrow> json list \<Rightarrow> 's \<Rightarrow> 's result" where
  "run_cells body [] st = Inr st"
| "run_cells body (cell # cells) st = pybind (body cell st) (run_cells body cells)"

text \<open>The scan of \<^verbatim>\<open>grade_notebook_enhanced\<close>: everything before "Calculate points".\<close>

definition scan_enhanced :: "json \<Rightarrow> expected_config \<Rightarrow> tracking result" where
  "scan_enhanced notebook cfg =
     pybind (py_getitem notebook ''cells'') (\<lambda>cs.
       pybind (py_iter cs) (\<lambda>cells.
         run_cells (enhanced_cell (is_analysis_notebook cfg) cfg) cells initial_tracking))"

text \<open>\<^verbatim>\<open>d.get(key, 0)\<close> on a counter dict.\<close>

definition get0 :: "(string \<rightharpoonup> nat) \<Rightarrow> string \<Rightarrow> nat" where
  "get0 d key = (case d key of None \<Rightarrow> 0 | Some n \<Rightarrow> n)"

text \<open>
  \<^verbatim>\<open>isinstance(expected, dict) and 'code_cells' in expected\<close>, with the two
  expected counts when it holds.
\<close>

definition split_counts :: "expected \<Rightarrow> (nat \<times> nat) option" where
  "split_counts e =
     (case e of
        Number _ \<Rightarrow> None
      | Dict d \<Rightarrow>
          (case code_cells d of
             None \<Rightarrow> None
           | Some c \<Rightarrow> Some (c, case raw_cells d of None \<Rightarrow> 0 | Some r \<Rightarrow> r)))"

text \<open>The point value of a section with no code/raw split.\<close>

definition plain_points :: "expected \<Rightarrow> nat" where
  "plain_points e =
     (case e of
        Number p \<Rightarrow> p
      | Dict d \<Rightarrow> (case points d of None \<Rightarrow> 0 | Some p \<Rightarrow> p))"

text \<open>
  The body of the loop "Calculate points" for one rubric item, on the counters, the
  \<^verbatim>\<open>results['sections']\<close> built so far and \<^verbatim>\<open>results['total_points']\<close>.
\<close>

definition score_section ::
  "string \<times> expected \<Rightarrow> tracking \<times> (string \<rightharpoonup> section_score) \<times> nat
     \<Rightarrow> tracking \<times> (string \<rightharpoonup> section_score) \<times> nat" where
  "score_section item acc =
     (case (item, acc) of ((section, e), (st, secs, total_pts)) \<Rightarrow>
        (case split_counts e of
           Some (exp_code, exp_raw) \<Rightarrow>
             let st1 = (if section_completed_code st section = None
                        then st\<lparr>section_completed_code := (section_completed_code st)(section \<mapsto> 0),
                                section_completed_raw := (section_completed_raw st)(section \<mapsto> 0)\<rparr>
                        else st);
                 completed_code = get0 (section_completed_code st1) section;
                 completed_raw = get0 (section_completed_raw st1) section;
                 earned_code = min completed_code exp_code;
                 earned_raw = min completed_raw exp_raw;
                 total_earned = earned_code + earned_raw;
                 total_expected = exp_code + exp_raw
             in (st1,
                 secs(section \<mapsto>
                   Split_score earned_code earned_raw total_earned exp_code exp_raw total_expected),
                 total_pts + total_earned)
         | None \<Rightarrow>
             let completed = get0 (section_completed_code st) section;
                 earned = min completed (plain_points e)
             in (st, secs(section \<mapsto> Earned earned), total_pts + earned)))"

definition calculate_points ::
  "expected_config \<Rightarrow> tracking \<Rightarrow> tracking \<times> (string \<rightharpoonup> section_score) \<times> nat" where
  "calculate_points cfg st = fold score_section (sections cfg) (st, Map.empty, 0)"

text \<open>The returned \<^verbatim>\<open>results\<close> dict, from the counters the scan left.\<close>

definition enhanced_result :: "expected_config \<Rightarrow> tracking \<Rightarrow> grading_result" where
  "enhanced_result cfg st =
     (case calculate_points cfg st of (st', secs, total_pts) \<Rightarrow>
        \<lparr>r_sections = secs, r_total_points = total_pts,
         r_missed_indices =
           Some (\<lambda>key. case key of
                          None \<Rightarrow> None
                        | Some k \<Rightarrow> map_option (\<lambda>(mc, mr). Missed_split mc mr) (missed_indices st k)),
         r_issues = None\<rparr>)"

definition grade_notebook_enhanced :: "json \<Rightarrow> expected_config \<Rightarrow> grading_result result" where
  "grade_notebook_enhanced notebook cfg =
     pybind (scan_enhanced notebook cfg) (\<lambda>st. Inr (enhanced_result cfg st))"

section \<open>The two specialised graders\<close>

text \<open>
  The local variables of \<^verbatim>\<open>grade_markdown_exercise_01\<close> and of
  \<^verbatim>\<open>grade_question_answer\<close>. \<open>sp_current\<close> is \<^verbatim>\<open>current_section\<close> and
  \<open>sp_missed\<close> is \<^verbatim>\<open>results['missed_indices']\<close>, which can get the key
  \<^verbatim>\<open>None\<close>. The question/answer grader has no \<^verbatim>\<open>code_cells_completed\<close> and
  leaves that field alone.
\<close>

record special_tracking =
  sp_current :: "string option"
  section_completed :: "string \<rightharpoonup> nat"
  section_cell_counts :: "string \<rightharpoonup> nat"
  code_cells_completed :: "string \<rightharpoonup> nat"
  sp_missed :: "string option \<rightharpoonup> nat list"

definition initial_special :: special_tracking where
  "initial_special =
     \<lparr>sp_current = None, section_completed = Map.empty, section_cell_counts = Map.empty,
      code_cells_completed = Map.empty, sp_missed = Map.empty\<rparr>"

text \<open>
  The loop over the lines of a markdown cell, common to both graders: the first line
  that starts with \<^verbatim>\<open>#\<close> and matches the pattern gives the section, and the loop
  breaks there.
\<close>

fun first_header :: "string list \<Rightarrow> string option" where
  "first_header [] = None"
| "first_header (line # lines) =
     (if startswith line ''#'' then
        (case re_simple (py_strip line) of
           Some g \<Rightarrow> Some (g @ ''.'')
         | None \<Rightarrow> first_header lines)
      else first_header lines)"

text \<open>The header update of \<^verbatim>\<open>grade_markdown_exercise_01\<close> on the source of a markdown cell.\<close>

definition md_mark :: "string \<Rightarrow> special_tracking \<Rightarrow> special_tracking" where
  "md_mark source st =
     (case first_header (split_nl source) of
        None \<Rightarrow> st
      | Some key \<Rightarrow>
          let st1 = st\<lparr>sp_current := Some key\<rparr> in
          if section_completed st1 key = None then
            st1\<lparr>section_completed := (section_completed st1)(key \<mapsto> 0),
                section_cell_counts := (section_cell_counts st1)(key \<mapsto> 0),
                code_cells_completed := (code_cells_completed st1)(key \<mapsto> 0),
                sp_missed := (sp_missed st1)(Some key \<mapsto> [])\<rparr>
          else st1)"

text \<open>The one of \<^verbatim>\<open>grade_question_answer\<close>.\<close>

definition qa_mark :: "string \<Rightarrow> special_tracking \<Rightarrow> special_tracking" where
  "qa_mark source st =
     (case first_header (split_nl source) of
        None \<Rightarrow> st
      | Some key \<Rightarrow>
          let st1 = st\<lparr>sp_current := Some key\<rparr> in
          if section_completed st1 key = None then
            st1\<lparr>section_completed := (section_completed st1)(key \<mapsto> 0),
                section_cell_counts := (section_cell_counts st1)(key \<mapsto> 0),
                sp_missed := (sp_missed st1)(Some key \<mapsto> [])\<rparr>
          else st1)"

subsection \<open>The markdown-exercise grader\<close>

text \<open>The count of a code cell in the first pass, in the section \<open>cur\<close>.\<close>

definition md_count_code :: "string \<Rightarrow> json \<Rightarrow> special_tracking \<Rightarrow> special_tracking result" where
  "md_count_code cur cell st =
     (case section_cell_counts st cur of
        None \<Rightarrow> Inl KeyError
      | Some n \<Rightarrow>
          let st1 = st\<lparr>section_cell_counts := (section_cell_counts st)(cur \<mapsto> Suc n)\<rparr> in
          pybind (has_content cell) (\<lambda>complete.
            if complete then
              (case section_completed st1 cur of
                 None \<Rightarrow> Inl KeyError
               | Some m \<Rightarrow>
                   (case code_cells_completed st1 cur of
                      None \<Rightarrow> Inl KeyError
                    | Some c \<Rightarrow>
                        Inr (st1\<lparr>section_completed := (section_completed st1)(cur \<mapsto> Suc m),
                                 code_cells_completed :=
                                   (code_cells_completed st1)(cur \<mapsto> Suc c)\<rparr>)))
            else Inr (st1\<lparr>sp_missed := (sp_missed st1)(Some cur \<mapsto> [])\<rparr>)))"

text \<open>The body of the first loop.\<close>

definition md_first_cell ::
  "expected_config \<Rightarrow> json \<Rightarrow> special_tracking \<Rightarrow> special_tracking result" where
  "md_first_cell cfg cell st =
     pybind (py_getitem cell ''cell_type'') (\<lambda>cell_type.
       pybind (if cell_type = JStr ''markdown''
               then pybind (cell_source cell) (\<lambda>source. Inr (md_mark source st))
               else Inr st)
         (\<lambda>st1.
            case sp_current st1 of
              None \<Rightarrow> Inr st1
            | Some cur \<Rightarrow>
                if cur \<noteq> [] \<and> in_rubric cfg cur \<and> cell_type = JStr ''code''
                then md_count_code cur cell st1
                else Inr st1))"

definition check_text :: string where
  "check_text = ''If you did the step above, you should see a cell above this one with rendered text of whatever you put in.''"

text \<open>\<^verbatim>\<open>code_cells_completed.get(current_section, 0)\<close>, where the key can be \<^verbatim>\<open>None\<close>.\<close>

definition code_completed_current :: "special_tracking \<Rightarrow> nat" where
  "code_completed_current st =
     (case sp_current st of None \<Rightarrow> 0 | Some cur \<Rightarrow> get0 (code_cells_completed st) cur)"

text \<open>
  What the second loop does at the cell with the instructional sentence, found at
  position \<open>idx\<close> of \<open>cells\<close>.
\<close>

definition exercise_check :: "json list \<Rightarrow> nat \<Rightarrow> special_tracking \<Rightarrow> special_tracking result" where
  "exercise_check cells idx st =
     (if 0 < idx then
        let prev_cell = cells ! (idx - 1);
            cleared = st\<lparr>sp_missed := (sp_missed st)(sp_current st \<mapsto> [])\<rparr>
        in
        pybind (cell_source prev_cell) (\<lambda>prev_source.
        pybind (py_getitem prev_cell ''cell_type'') (\<lambda>prev_type.
          if prev_type = JStr ''markdown'' then
            pybind (has_content prev_cell) (\<lambda>complete.
              if complete then
                (if 0 < code_completed_current st then
                   (case sp_current st of
                      None \<Rightarrow> Inl KeyError
                    | Some cur \<Rightarrow>
                        (case section_completed st cur of
                           None \<Rightarrow> Inl KeyError
                         | Some m \<Rightarrow>
                             Inr (st\<lparr>section_completed := (section_completed st)(cur \<mapsto> Suc m)\<rparr>)))
                 else Inr st)
              else Inr cleared)
          else Inr cleared))
      else Inr st)"

text \<open>
  The second loop, from position \<open>idx\<close> on (\<open>rest\<close> is what is left of \<open>cells\<close>):
  it breaks at the first markdown cell that contains the sentence.
\<close>

fun second_pass ::
  "json list \<Rightarrow> nat \<Rightarrow> json list \<Rightarrow> special_tracking \<Rightarrow> special_tracking result" where
  "second_pass cells idx [] st = Inr st"
| "second_pass cells idx (cell # rest) st =
     pybind (py_getitem cell ''cell_type'') (\<lambda>cell_type.
       if cell_type = JStr ''markdown'' then
         pybind (cell_source cell) (\<lambda>source.
           if py_in check_text source then exercise_check cells idx st
           else second_pass cells (Suc idx) rest st)
       else second_pass cells (Suc idx) rest st)"

text \<open>Both loops of \<^verbatim>\<open>grade_markdown_exercise_01\<close>.\<close>

definition md_scan :: "json \<Rightarrow> expected_config \<Rightarrow> special_tracking result" where
  "md_scan notebook cfg =
     pybind (py_getitem notebook ''cells'') (\<lambda>cs.
       pybind (py_iter cs) (\<lambda>cells.
         pybind (run_cells (md_first_cell cfg) cells initial_special)
           (second_pass cells 0 cells)))"

text \<open>"Calculate points", the same loop in both graders.\<close>

definition special_score ::
  "special_tracking \<Rightarrow> string \<times> expected \<Rightarrow> (string \<rightharpoonup> section_score) \<times> nat
     \<Rightarrow> (string \<rightharpoonup> section_score) \<times> nat" where
  "special_score st item acc =
     (case (item, acc) of ((section, e), (secs, total_pts)) \<Rightarrow>
        let completed = get0 (section_completed st) section;
            earned = min completed (plain_points e)
        in (secs(section \<mapsto> Earned earned), total_pts + earned))"

definition special_result :: "expected_config \<Rightarrow> special_tracking \<Rightarrow> grading_result" where
  "special_result cfg st =
     (case fold (special_score st) (sections cfg) (Map.empty, 0) of (secs, total_pts) \<Rightarrow>
        \<lparr>r_sections = secs, r_total_points = total_pts,
         r_missed_indices = Some (\<lambda>key. map_option Missed_list (sp_missed st key)),
         r_issues = None\<rparr>)"

definition grade_markdown_exercise_01 :: "json \<Rightarrow> expected_config \<Rightarrow> grading_result result" where
  "grade_markdown_exercise_01 notebook cfg =
     pybind (md_scan notebook cfg) (\<lambda>st. Inr (special_result cfg st))"

subsection \<open>The question/answer grader\<close>

text \<open>The count of a question cell in the section \<open>cur\<close>; \<open>source\<close> is its trimmed text.\<close>

definition qa_count :: "string \<Rightarrow> string \<Rightarrow> special_tracking \<Rightarrow> special_tracking result" where
  "qa_count cur source st =
     (case section_cell_counts st cur of
        None \<Rightarrow> Inl KeyError
      | Some n \<Rightarrow>
          let st1 = st\<lparr>section_cell_counts := (section_cell_counts st)(cur \<mapsto> Suc n)\<rparr> in
          (case py_find source CHR '':'' of
             None \<Rightarrow> Inr st1
           | Some colon_pos \<Rightarrow>
               if 0 < length (py_strip (drop (colon_pos + 1) source)) then
                 (case section_completed st1 cur of
                    None \<Rightarrow> Inl KeyError
                  | Some m \<Rightarrow>
                      Inr (st1\<lparr>section_completed := (section_completed st1)(cur \<mapsto> Suc m)\<rparr>))
               else
                 (case sp_missed st1 (Some cur) of
                    None \<Rightarrow> Inl KeyError
                  | Some ms \<Rightarrow>
                      Inr (st1\<lparr>sp_missed := (sp_missed st1)(Some cur \<mapsto> ms @ [Suc n])\<rparr>))))"

text \<open>The body of the loop.\<close>

definition qa_cell ::
  "expected_config \<Rightarrow> json \<Rightarrow> special_tracking \<Rightarrow> special_tracking result" where
  "qa_cell cfg cell st =
     pybind (cell_source cell) (\<lambda>joined.
       let source = py_strip joined in
       pybind (py_getitem cell ''cell_type'') (\<lambda>cell_type.
         let st1 = (if cell_type = JStr ''markdown'' then qa_mark source st else st) in
         case sp_current st1 of
           None \<Rightarrow> Inr st1
         | Some cur \<Rightarrow>
             if cur \<noteq> [] \<and> in_rubric cfg cur \<and> startswith source ''Question''
             then qa_count cur source st1
             else Inr st1))"

text \<open>The loop, over \<^verbatim>\<open>notebook.get('cells', [])\<close>.\<close>

definition qa_scan :: "json \<Rightarrow> expected_config \<Rightarrow> special_tracking result" where
  "qa_scan notebook cfg =
     pybind (py_get notebook ''cells'' (JArr [])) (\<lambda>cs.
       pybind (py_iter cs) (\<lambda>cells. run_cells (qa_cell cfg) cells initial_special))"

definition grade_question_answer :: "json \<Rightarrow> expected_config \<Rightarrow> grading_result result" where
  "grade_question_answer notebook cfg =
     pybind (qa_scan notebook cfg) (\<lambda>st. Inr (special_result cfg st))"

section \<open>The entry point\<close>

text \<open>\<^verbatim>\<open>isinstance(section, dict) and 'special' in section\<close>.\<close>

definition has_special :: "expected \<Rightarrow> bool" where
  "has_special e = (case e of Number _ \<Rightarrow> False | Dict d \<Rightarrow> special d \<noteq> None)"

definition special_grading :: "expected_config \<Rightarrow> bool" where
  "special_grading cfg = list_ex (\<lambda>item. has_special (snd item)) (sections cfg)"

text \<open>
  The loop over the rubric items under \<^verbatim>\<open>if special_grading\<close>: \<open>Some\<close> is what
  it returns (or raises), \<open>None\<close> that it ran to its end without returning.
\<close>

fun dispatch_special ::
  "(string \<times> expected) list \<Rightarrow> json \<Rightarrow> expected_config \<Rightarrow> grading_result result option" where
  "dispatch_special [] notebook cfg = None"
| "dispatch_special ((section, Number p) # items) notebook cfg =
     dispatch_special items notebook cfg"
| "dispatch_special ((section, Dict d) # items) notebook cfg =
     (case special d of
        None \<Rightarrow> dispatch_special items notebook cfg
      | Some tag \<Rightarrow>
          if tag = ''markdown_exercise_01'' then
            (case grade_markdown_exercise_01 notebook cfg of
               Inl err \<Rightarrow> Some (Inl err)
             | Inr grading_result \<Rightarrow>
                 if r_missed_indices grading_result \<noteq> None then Some (Inr grading_result)
                 else dispatch_special items notebook cfg)
          else if tag = ''question_answer'' then Some (grade_question_answer notebook cfg)
          else dispatch_special items notebook cfg)"

text \<open>The body of the \<^verbatim>\<open>try\<close> block, after the notebook is loaded.\<close>

definition select_grader :: "json \<Rightarrow> expected_config \<Rightarrow> grading_result result" where
  "select_grader notebook cfg =
     (case (if special_grading cfg then dispatch_special (sections cfg) notebook cfg else None) of
        Some outcome \<Rightarrow> outcome
      | None \<Rightarrow> grade_notebook_enhanced notebook cfg)"

text \<open>
  \<^verbatim>\<open>str(e)\<close>, shortened to the kind of the exception (the wording of Python's
  messages is not modelled).
\<close>

definition error_text :: "py_error \<Rightarrow> string" where
  "error_text e =
     (case e of
        KeyError \<Rightarrow> ''KeyError''
      | TypeError \<Rightarrow> ''TypeError''
      | AttributeError \<Rightarrow> ''AttributeError''
      | LoadError \<Rightarrow> ''LoadError'')"

text \<open>The dict returned under \<^verbatim>\<open>except Exception as e\<close>.\<close>

definition error_result :: "py_error \<Rightarrow> grading_result" where
  "error_result e =
     \<lparr>r_sections = Map.empty, r_total_points = 0, r_missed_indices = None,
      r_issues = Some [''Error processing notebook: '' @ error_text e]\<rparr>"

text \<open>
  \<^verbatim>\<open>grade_notebook\<close>. \<open>loaded\<close> is the outcome of opening the file at
  \<^verbatim>\<open>notebook_path\<close> and of \<^verbatim>\<open>json.load\<close>: the parsed document, or the
  exception.
\<close>

definition grade_notebook :: "json result \<Rightarrow> expected_config \<Rightarrow> grading_result" where
  "grade_notebook loaded cfg =
     (case pybind loaded (\<lambda>notebook. select_grader notebook cfg) of
        Inl e \<Rightarrow> error_result e
      | Inr results \<Rightarrow> results)"

section \<open>Notions used to state the properties\<close>

text \<open>
  The two completion counters of the default grader are initialised together, so a
  section with no code counter has no raw counter either.
\<close>

definition counters_paired :: "tracking \<Rightarrow> bool" where
  "counters_paired st =
     (\<forall>k. section_completed_code st k = None \<longrightarrow> section_completed_raw st k = None)"

text \<open>
  The entry of \<^verbatim>\<open>results['sections']\<close> that "Calculate points" computes for the
  rubric item \<open>(k, e)\<close> from the counters \<open>st\<close>.
\<close>

definition section_result :: "tracking \<Rightarrow> string \<Rightarrow> expected \<Rightarrow> section_score" where
  "section_result st k e =
     (case split_counts e of
        Some (c, r) \<Rightarrow>
          (let ec = min (get0 (section_completed_code st) k) c;
               er = min (if section_completed_code st k = None then 0
                         else get0 (section_completed_raw st) k) r
           in Split_score ec er (ec + er) c r (c + r))
      | None \<Rightarrow> Earned (min (get0 (section_completed_code st) k) (plain_points e)))"

text \<open>The result of a fully missed section: nothing earned, the expected totals kept.\<close>

definition zero_score :: "expected \<Rightarrow> section_score" where
  "zero_score e =
     (case split_counts e of
        Some (c, r) \<Rightarrow> Split_score 0 0 0 c r (c + r)
      | None \<Rightarrow> Earned 0)"

text \<open>
  The section keys of all header lines the default grader finds in a cell, in the
  header dialect \<open>analysis\<close> (none in a cell that is not markdown).
\<close>

definition header_keys :: "bool \<Rightarrow> json \<Rightarrow> string list" where
  "header_keys analysis cell =
     (case py_getitem cell ''cell_type'' of
        Inl _ \<Rightarrow> []
      | Inr cell_type \<Rightarrow>
          if cell_type = JStr ''markdown'' then
            (case cell_source cell of
               Inl _ \<Rightarrow> []
             | Inr source \<Rightarrow>
                 (if deseq_anchor source then [''2.''] else []) @
                 main_sections analysis source @
                 subsections analysis source)
          else [])"

text \<open>
  A cell at which the second loop of the markdown-exercise grader stops: a markdown cell
  whose source contains the instructional sentence.
\<close>

definition is_trigger :: "json \<Rightarrow> bool" where
  "is_trigger cell =
     (case py_getitem cell ''cell_type'' of
        Inl _ \<Rightarrow> False
      | Inr cell_type \<Rightarrow>
          cell_type = JStr ''markdown'' \<and>
          (case cell_source cell of Inl _ \<Rightarrow> False | Inr source \<Rightarrow> py_in check_text source))"

text \<open>
  What the first loop of the markdown-exercise grader keeps true: every missed list is
  empty, every section with a counter has a missed list, and the current section has a
  counter.
\<close>

definition md_inv :: "special_tracking \<Rightarrow> bool" where
  "md_inv st =
     ((\<forall>key ms. sp_missed st key = Some ms \<longrightarrow> ms = []) \<and>
      (\<forall>k. section_completed st k \<noteq> None \<longrightarrow> sp_missed st (Some k) \<noteq> None) \<and>
      (\<forall>k. sp_current st = Some k \<longrightarrow> section_completed st k \<noteq> None))"

text \<open>
  The document shape of the external interface, as the specification gives it:
  \<^verbatim>\<open>{ cells: [ {cell_type, source, outputs?, execution_count?}, ... ] }\<close>, where
  \<^verbatim>\<open>source\<close> is a string or a sequence of strings. Only used to say which
  documents are structurally invalid; no grader checks it.
\<close>

definition valid_source :: "json \<Rightarrow> bool" where
  "valid_source src =
     (case src of JStr _ \<Rightarrow> True | JArr xs \<Rightarrow> str_items xs \<noteq> None | _ \<Rightarrow> False)"

definition valid_cell :: "json \<Rightarrow> bool" where
  "valid_cell cell =
     (case cell of
        JObj items \<Rightarrow>
          (case map_of items ''cell_type'' of Some (JStr _) \<Rightarrow> True | _ \<Rightarrow> False) \<and>
          (case map_of items ''source'' of Some src \<Rightarrow> valid_source src | None \<Rightarrow> False)
      | _ \<Rightarrow> False)"

definition structurally_valid :: "json \<Rightarrow> bool" where
  "structurally_valid notebook =
     (case notebook of
        JObj items \<Rightarrow>
          (case map_of items ''cells'' of
             Some (JArr cells) \<Rightarrow> list_all valid_cell cells
           | _ \<Rightarrow> False)
      | _ \<Rightarrow> False)"

text \<open>
  Structural defects that every grader runs into: the top-level value is not an
  object, its \<^verbatim>\<open>cells\<close> value cannot be iterated, or one of the cells is not an
  object or has no \<^verbatim>\<open>cell_type\<close>.
\<close>

definition unreadable :: "json \<Rightarrow> bool" where
  "unreadable notebook =
     (case notebook of
        JObj items \<Rightarrow>
          (case map_of items ''cells'' of
             None \<Rightarrow> False
           | Some cs \<Rightarrow>
               (case py_iter cs of
                  Inl _ \<Rightarrow> True
                | Inr cells \<Rightarrow> list_ex (\<lambda>cell. isl (py_getitem cell ''cell_type'')) cells))
      | _ \<Rightarrow> True)"

section \<open>Example inputs\<close>

text \<open>A code cell that was run and printed something, but whose text is a question stub.\<close>

definition question_code_cell :: json where
  "question_code_cell =
     JObj [(''cell_type'', JStr ''code''), (''source'', JArr [JStr ''Question 1'']),
           (''outputs'', JArr [JObj [(''output_type'', JStr ''stream'')]]),
           (''execution_count'', JNum 1)]"

text \<open>A cell of a given kind with a given text.\<close>

definition text_cell :: "string \<Rightarrow> string \<Rightarrow> json" where
  "text_cell kind src = JObj [(''cell_type'', JStr kind), (''source'', JArr [JStr src])]"

text \<open>A code cell with one output and a given execution marker.\<close>

definition run_cell :: "string \<Rightarrow> json \<Rightarrow> json" where
  "run_cell src marker =
     JObj [(''cell_type'', JStr ''code''), (''source'', JStr src),
           (''outputs'', JArr [JObj [(''output_type'', JStr ''stream'')]]),
           (''execution_count'', marker)]"

text \<open>
  The scenario of the specification: a rubric with section 1 (two code units, one raw
  unit) and, in addition, a section 2 that the document never reaches.
\<close>

definition rubric_two :: expected_config where
  "rubric_two =
     \<lparr>asset_id = Some ''01-RNAseq_processing.ipynb'',
      sections =
        [(''1.'', Dict \<lparr>code_cells = Some 2, raw_cells = Some 1, points = None, special = None\<rparr>),
         (''2.'', Dict \<lparr>code_cells = Some 1, raw_cells = Some 2, points = None, special = None\<rparr>)]\<rparr>"

definition notebook_scenario :: json where
  "notebook_scenario =
     JObj [(''cells'', JArr
       [text_cell ''markdown'' ''# 1. Title'',
        run_cell ''x = 1'' (JNum 1),
        JObj [(''cell_type'', JStr ''code''), (''source'', JArr []), (''outputs'', JArr []),
              (''execution_count'', JNull)],
        text_cell ''raw'' ''answer''])]"

definition empty_notebook :: json where
  "empty_notebook = JObj [(''cells'', JArr [])]"

text \<open>
  A subsection header, then the header of the next top-level section, then one code
  cell that was run.
\<close>

definition rubric_sub :: expected_config where
  "rubric_sub =
     \<lparr>asset_id = Some ''01-RNAseq_processing.ipynb'',
      sections =
        [(''1a.'', Dict \<lparr>code_cells = Some 1, raw_cells = Some 0, points = None, special = None\<rparr>),
         (''2.'', Dict \<lparr>code_cells = Some 1, raw_cells = Some 0, points = None, special = None\<rparr>)]\<rparr>"

definition notebook_sub :: json where
  "notebook_sub =
     JObj [(''cells'', JArr
       [text_cell ''markdown'' ''### 1a. Raw Data QC with FastQC'',
        text_cell ''markdown'' ''# 2. Trim/Filter Raw Data'',
        run_cell ''x = 1'' (JNum 1)])]"

text \<open>A markdown cell with two header lines.\<close>

definition two_headers :: string where
  "two_headers = ''# 1. One\<newline># 2. Two''"

text \<open>
  A question/answer rubric and a document with one answered question, one question
  left blank after its colon and one question with no colon.
\<close>

definition rubric_qa :: expected_config where
  "rubric_qa =
     \<lparr>asset_id = None,
      sections =
        [(''1.'', Dict \<lparr>code_cells = None, raw_cells = None, points = Some 3,
                         special = Some ''question_answer''\<rparr>)]\<rparr>"

definition notebook_qa :: json where
  "notebook_qa =
     JObj [(''cells'', JArr
       [text_cell ''markdown'' ''# 1. Questions'',
        text_cell ''markdown'' ''Question 1: yes'',
        text_cell ''markdown'' ''Question 2: '',
        text_cell ''markdown'' ''Question 3''])]"

text \<open>
  A markdown-exercise rubric and two documents: in the first the cell before the one
  with the instructional sentence is a filled markdown cell, in the second it is a code
  cell.
\<close>

definition rubric_md :: expected_config where
  "rubric_md =
     \<lparr>asset_id = None,
      sections =
        [(''1.'', Dict \<lparr>code_cells = None, raw_cells = None, points = Some 2,
                         special = Some ''markdown_exercise_01''\<rparr>)]\<rparr>"

definition cells_md_done :: "json list" where
  "cells_md_done =
     [text_cell ''markdown'' ''# 1. Markdown'',
      run_cell ''x = 1'' (JNum 1),
      text_cell ''markdown'' ''my text'',
      text_cell ''markdown'' check_text]"

definition cells_md_skipped :: "json list" where
  "cells_md_skipped =
     [text_cell ''markdown'' ''# 1. Markdown'',
      run_cell ''x = 1'' (JNum 1),
      text_cell ''markdown'' check_text]"

text \<open>
  Two documents that are not of the shape of the interface: the \<^verbatim>\<open>cells\<close> value
  is an empty object, and a code cell has a number for its source.
\<close>

definition notebook_cells_object :: json where
  "notebook_cells_object = JObj [(''cells'', JObj [])]"

definition notebook_bad_source :: json where
  "notebook_bad_source =
     JObj [(''cells'', JArr [JObj [(''cell_type'', JStr ''code''), (''source'', JNum 5)]])]"

text \<open>A document with a cell that has no \<^verbatim>\<open>cell_type\<close>.\<close>

definition notebook_no_type :: json where
  "notebook_no_type = JObj [(''cells'', JArr [JObj [(''source'', JStr ''x'')]])]"

text \<open>The state of the question/answer grader after the header cell of \<open>notebook_qa\<close>.\<close>

definition after_header :: special_tracking where
  "after_header = qa_mark ''# 1. Questions'' initial_special"

section \<open>Basic facts\<close>

lemma pybind_Inr [simp]: "pybind (Inr v) f = f v"
  by (simp add: pybind_def)

lemma pybind_Inl [simp]: "pybind (Inl e) f = Inl e"
  by (simp add: pybind_def)

lemma pybind_eq_Inr: "pybind m f = Inr y \<longleftrightarrow> (\<exists>v. m = Inr v \<and> f v = Inr y)"
  by (cases m) simp_all

lemma isl_pybind: "isl (pybind m f) \<longleftrightarrow> isl m \<or> (\<exists>v. m = Inr v \<and> isl (f v))"
  by (cases m) simp_all

lemma py_getitem_Inr:
  "py_getitem x key = Inr v \<longleftrightarrow> (\<exists>items. x = JObj items \<and> map_of items key = Some v)"
  by (cases x) (auto simp: py_getitem_def split: option.splits)

lemma py_get_JObj:
  "py_get (JObj items) key dflt = Inr (case map_of items key of None \<Rightarrow> dflt | Some v \<Rightarrow> v)"
  by (simp add: py_get_def split: option.splits)

text \<open>\<^verbatim>\<open>find\<close> returns the position of the first occurrence.\<close>

lemma py_find_first:
  "py_find s c = Some i \<longleftrightarrow> (i < length s \<and> s ! i = c \<and> (\<forall>j<i. s ! j \<noteq> c))"
proof (induction s arbitrary: i)
  case Nil
  then show ?case by simp
next
  case (Cons x xs)
  show ?case
  proof (cases "x = c")
    case True
    then show ?thesis by (cases i) auto
  next
    case False
    show ?thesis
    proof (cases i)
      case 0
      with False show ?thesis by auto
    next
      case (Suc k)
      have "(\<forall>j<Suc k. (x # xs) ! j \<noteq> c) \<longleftrightarrow> (\<forall>j<k. xs ! j \<noteq> c)"
        using False by (auto simp: less_Suc_eq_0_disj)
      with Suc False Cons.IH [of k] show ?thesis by auto
    qed
  qed
qed

lemma py_find_None: "py_find s c = None \<longleftrightarrow> c \<notin> set s"
  by (induction s) auto

lemma first_occurrence_find:
  "(\<exists>i<length s. s ! i = c \<and> (\<forall>j<i. s ! j \<noteq> c) \<and> P i)
     \<longleftrightarrow> (case py_find s c of None \<Rightarrow> False | Some k \<Rightarrow> P k)"
proof (cases "py_find s c")
  case None
  then have "\<not> (\<exists>i<length s. s ! i = c)"
    by (metis py_find_None nth_mem)
  with None show ?thesis by auto
next
  case (Some k)
  then have k: "k < length s" "s ! k = c" "\<forall>j<k. s ! j \<noteq> c"
    by (simp_all add: py_find_first)
  have uniq: "i = k" if "i < length s" "s ! i = c" "\<forall>j<i. s ! j \<noteq> c" for i
  proof (rule ccontr)
    assume "i \<noteq> k"
    then consider "i < k" | "k < i" by linarith
    then show False
    proof cases
      case 1
      with k(3) that(2) show False by blast
    next
      case 2
      with that(3) k(2) show False by blast
    qed
  qed
  have "(\<exists>i<length s. s ! i = c \<and> (\<forall>j<i. s ! j \<noteq> c) \<and> P i) \<longleftrightarrow> P k"
  proof
    assume "\<exists>i<length s. s ! i = c \<and> (\<forall>j<i. s ! j \<noteq> c) \<and> P i"
    then obtain i where "i < length s" "s ! i = c" "\<forall>j<i. s ! j \<noteq> c" "P i"
      by blast
    with uniq [of i] show "P k" by simp
  next
    assume "P k"
    with k show "\<exists>i<length s. s ! i = c \<and> (\<forall>j<i. s ! j \<noteq> c) \<and> P i"
      by blast
  qed
  with Some show ?thesis by simp
qed

subsection \<open>The header patterns\<close>

lemma span_run:
  assumes "all_chars P xs" and "ys = [] \<or> \<not> P (hd ys)"
  shows "takeWhile P (xs @ ys) = xs" and "dropWhile P (xs @ ys) = ys"
  using assms by (cases ys; simp add: all_chars_def takeWhile_append2 dropWhile_append2)+

lemma run_takeWhile: "all_chars P (takeWhile P xs)"
  by (auto simp: all_chars_def dest: set_takeWhileD)

lemma dropWhile_stops: "dropWhile P xs = [] \<or> \<not> P (hd (dropWhile P xs))"
  using hd_dropWhile [of P xs] by blast

lemma class_facts:
  "is_space c \<Longrightarrow> \<not> is_hash c" "is_space c \<Longrightarrow> \<not> is_digit c" "is_space c \<Longrightarrow> c \<noteq> CHR ''.''"
  "is_space c \<Longrightarrow> \<not> is_lower_az c"
  "is_digit c \<Longrightarrow> \<not> is_lower_az c" "is_digit c \<Longrightarrow> c \<noteq> CHR ''.''" "is_digit c \<Longrightarrow> \<not> is_hash c"
  "is_lower_az c \<Longrightarrow> c \<noteq> CHR ''.''" "is_hash c \<Longrightarrow> c \<noteq> CHR ''.''"
  "\<not> is_space CHR ''.''" "\<not> is_digit CHR ''.''" "\<not> is_space CHR ''#''" "is_hash CHR ''#''"
  by (auto simp: is_space_def is_hash_def is_digit_def is_lower_az_def)


lemma dot_space_iff:
  "dot_space r \<longleftrightarrow> (\<exists>dot sp2 rest. r = dot @ sp2 @ rest \<and> dot_opt dot \<and> sp2 \<noteq> [] \<and> all_chars is_space sp2)"
proof
  assume ds: "dot_space r"
  show "\<exists>dot sp2 rest. r = dot @ sp2 @ rest \<and> dot_opt dot \<and> sp2 \<noteq> [] \<and> all_chars is_space sp2"
  proof (cases r)
    case Nil
    with ds show ?thesis by simp
  next
    case (Cons c cs)
    show ?thesis
    proof (cases "c = CHR ''.''")
      case True
      with ds Cons obtain d ds' where "cs = d # ds'" "is_space d"
        by (cases cs) auto
      with Cons True have "r = ''.'' @ [d] @ ds' \<and> dot_opt ''.'' \<and> [d] \<noteq> [] \<and> all_chars is_space [d]"
        by (simp add: dot_opt_def all_chars_def)
      then show ?thesis by blast
    next
      case False
      with ds Cons have "is_space c" by simp
      with Cons have "r = [] @ [c] @ cs \<and> dot_opt [] \<and> [c] \<noteq> [] \<and> all_chars is_space [c]"
        by (simp add: dot_opt_def all_chars_def)
      then show ?thesis by blast
    qed
  qed
next
  assume "\<exists>dot sp2 rest. r = dot @ sp2 @ rest \<and> dot_opt dot \<and> sp2 \<noteq> [] \<and> all_chars is_space sp2"
  then obtain dot sp2 rest where r: "r = dot @ sp2 @ rest" "dot_opt dot" "sp2 \<noteq> []" "all_chars is_space sp2"
    by blast
  from r(3,4) obtain d sp' where sp2: "sp2 = d # sp'" "is_space d"
    by (cases sp2) (auto simp: all_chars_def)
  from sp2(2) have nd: "d \<noteq> CHR ''.''"
    by (rule class_facts)
  from r(2) show "dot_space r"
    unfolding dot_opt_def
  proof
    assume "dot = []"
    with r(1) sp2 nd show ?thesis by simp
  next
    assume "dot = ''.''"
    with r(1) sp2 show ?thesis by simp
  qed
qed

lemma dot_space_hd:
  assumes "dot_opt dot" and "sp2 \<noteq> []" and "all_chars is_space sp2"
  shows "\<not> is_digit (hd (dot @ sp2 @ rest))" and "\<not> is_lower_az (hd (dot @ sp2 @ rest))"
proof -
  from assms(2,3) obtain d sp' where sp2: "sp2 = d # sp'" "is_space d"
    by (cases sp2) (auto simp: all_chars_def)
  from assms(1) have "hd (dot @ sp2 @ rest) = CHR ''.'' \<or> hd (dot @ sp2 @ rest) = d"
    using sp2(1) by (auto simp: dot_opt_def)
  moreover have "\<not> is_digit CHR ''.''" "\<not> is_lower_az CHR ''.''"
    by (simp_all add: is_digit_def is_lower_az_def)
  moreover have "\<not> is_digit d" "\<not> is_lower_az d"
    using sp2(2) by (rule class_facts)+
  ultimately show "\<not> is_digit (hd (dot @ sp2 @ rest))" and "\<not> is_lower_az (hd (dot @ sp2 @ rest))"
    by auto
qed


lemma header_prefix:
  assumes "all_chars is_space ws" and "hs \<noteq> []" and "all_chars is_hash hs" and "sp \<noteq> []"
      and "all_chars is_space sp" and "g \<noteq> []" and "\<not> is_space (hd g)"
  shows "dropWhile is_space (ws @ hs @ sp @ g @ rest) = hs @ sp @ g @ rest"
    and "takeWhile is_hash (hs @ sp @ g @ rest) = hs"
    and "dropWhile is_hash (hs @ sp @ g @ rest) = sp @ g @ rest"
    and "takeWhile is_space (sp @ g @ rest) = sp"
    and "dropWhile is_space (sp @ g @ rest) = g @ rest"
proof -
  from assms(2,3) have "is_hash (hd hs)"
    by (cases hs) (auto simp: all_chars_def)
  then have h1: "\<not> is_space (hd (hs @ sp @ g @ rest))"
    using assms(2) class_facts(1) by (cases hs) auto
  from assms(4,5) have "is_space (hd sp)"
    by (cases sp) (auto simp: all_chars_def)
  then have h2: "\<not> is_hash (hd (sp @ g @ rest))"
    using assms(4) class_facts(1) by (cases sp) auto
  have h3: "\<not> is_space (hd (g @ rest))"
    using assms(6,7) by (cases g) auto
  show "dropWhile is_space (ws @ hs @ sp @ g @ rest) = hs @ sp @ g @ rest"
    using span_run(2) [OF assms(1)] h1 by blast
  show "takeWhile is_hash (hs @ sp @ g @ rest) = hs"
    using span_run(1) [OF assms(3)] h2 by blast
  show "dropWhile is_hash (hs @ sp @ g @ rest) = sp @ g @ rest"
    using span_run(2) [OF assms(3)] h2 by blast
  show "takeWhile is_space (sp @ g @ rest) = sp"
    using span_run(1) [OF assms(5)] h3 by blast
  show "dropWhile is_space (sp @ g @ rest) = g @ rest"
    using span_run(2) [OF assms(5)] h3 by blast
qed

text \<open>Each pattern function agrees with its pattern.\<close>

lemma re_main_iff: "re_main line = Some g \<longleftrightarrow> matches_main line g"
proof
  assume m: "re_main line = Some g"
  define ws where "ws = takeWhile is_space line"
  define r1 where "r1 = dropWhile is_space line"
  define hs where "hs = takeWhile is_hash r1"
  define r2 where "r2 = dropWhile is_hash r1"
  define sp where "sp = takeWhile is_space r2"
  define r3 where "r3 = dropWhile is_space r2"
  define r4 where "r4 = dropWhile is_digit r3"
  have unf: "re_main line =
      (if hs \<noteq> [] \<and> sp \<noteq> [] \<and> takeWhile is_digit r3 \<noteq> [] \<and> dot_space r4
       then Some (takeWhile is_digit r3) else None)"
    by (simp add: re_main_def Let_def r1_def hs_def r2_def sp_def r3_def r4_def)
  from m unf have g: "g = takeWhile is_digit r3" and ne: "hs \<noteq> []" "sp \<noteq> []" "g \<noteq> []"
    and ds: "dot_space r4"
    by (simp_all split: if_splits)
  from ds obtain dot sp2 rest where r4: "r4 = dot @ sp2 @ rest" "dot_opt dot" "sp2 \<noteq> []" "all_chars is_space sp2"
    unfolding dot_space_iff by blast
  have "line = ws @ r1" "r1 = hs @ r2" "r2 = sp @ r3" "r3 = g @ r4"
    by (simp_all add: ws_def r1_def hs_def r2_def sp_def r3_def g r4_def)
  with r4(1) have "line = ws @ hs @ sp @ g @ dot @ sp2 @ rest" by simp
  moreover have "all_chars is_space ws" "all_chars is_hash hs" "all_chars is_space sp" "all_chars is_digit g"
    by (simp_all add: ws_def hs_def sp_def g run_takeWhile)
  ultimately show "matches_main line g"
    using ne r4(2-4) unfolding matches_main_def by blast
next
  assume "matches_main line g"
  then obtain ws hs sp dot sp2 rest where
    line: "line = ws @ hs @ sp @ g @ dot @ sp2 @ rest" and
    p: "all_chars is_space ws" "hs \<noteq> []" "all_chars is_hash hs" "sp \<noteq> []" "all_chars is_space sp"
       "g \<noteq> []" "all_chars is_digit g" "dot_opt dot" "sp2 \<noteq> []" "all_chars is_space sp2"
    unfolding matches_main_def by blast
  from p(6,7) have "is_digit (hd g)"
    by (cases g) (auto simp: all_chars_def)
  then have nsp: "\<not> is_space (hd g)"
    using class_facts(2) by blast
  note pre = header_prefix [OF p(1-6) nsp, of "dot @ sp2 @ rest"]
  have h4: "\<not> is_digit (hd (dot @ sp2 @ rest))"
    using dot_space_hd(1) [OF p(8,9,10)] by simp
  have t4: "takeWhile is_digit (g @ dot @ sp2 @ rest) = g"
    and r4: "dropWhile is_digit (g @ dot @ sp2 @ rest) = dot @ sp2 @ rest"
    using span_run [OF p(7)] h4 by blast+
  have ds: "dot_space (dot @ sp2 @ rest)"
    using p(8,9,10) unfolding dot_space_iff by blast
  show "re_main line = Some g"
    unfolding re_main_def Let_def line pre t4 r4 using p(2,4,6) ds by simp
qed


lemma digits_letter_iff:
  "digits_letter r = Some g \<longleftrightarrow>
     digits_letter_group g \<and>
     (\<exists>dot sp2 rest. r = g @ dot @ sp2 @ rest \<and> dot_opt dot \<and> sp2 \<noteq> [] \<and> all_chars is_space sp2)"
proof
  assume m: "digits_letter r = Some g"
  define ds where "ds = takeWhile is_digit r"
  from m obtain c r5 where dw: "dropWhile is_digit r = c # r5"
    by (cases "dropWhile is_digit r") (simp_all add: digits_letter_def Let_def)
  with m have g: "g = ds @ [c]" and ne: "ds \<noteq> []" and lo: "is_lower_az c" and tail: "dot_space r5"
    by (simp_all add: digits_letter_def Let_def ds_def split: if_splits)
  from tail obtain dot sp2 rest where r5: "r5 = dot @ sp2 @ rest" "dot_opt dot" "sp2 \<noteq> []" "all_chars is_space sp2"
    unfolding dot_space_iff by blast
  have "r = ds @ c # r5"
    using dw takeWhile_dropWhile_id [of is_digit r] by (simp add: ds_def)
  with g r5(1) have "r = g @ dot @ sp2 @ rest" by simp
  moreover have "digits_letter_group g"
    unfolding digits_letter_group_def using g ne lo by (auto simp: ds_def run_takeWhile)
  ultimately show "digits_letter_group g \<and>
     (\<exists>dot sp2 rest. r = g @ dot @ sp2 @ rest \<and> dot_opt dot \<and> sp2 \<noteq> [] \<and> all_chars is_space sp2)"
    using r5(2-4) by blast
next
  assume "digits_letter_group g \<and>
     (\<exists>dot sp2 rest. r = g @ dot @ sp2 @ rest \<and> dot_opt dot \<and> sp2 \<noteq> [] \<and> all_chars is_space sp2)"
  then obtain ds l dot sp2 rest where g: "g = ds @ [l]" "ds \<noteq> []" "all_chars is_digit ds" "is_lower_az l"
    and r: "r = g @ dot @ sp2 @ rest" "dot_opt dot" "sp2 \<noteq> []" "all_chars is_space sp2"
    unfolding digits_letter_group_def by blast
  from g(4) have nd: "\<not> is_digit l"
    using class_facts(5) by blast
  have r': "r = ds @ (l # dot @ sp2 @ rest)"
    using r(1) g(1) by simp
  have t: "takeWhile is_digit r = ds" and d: "dropWhile is_digit r = l # dot @ sp2 @ rest"
    unfolding r' using span_run [OF g(3), of "l # dot @ sp2 @ rest"] nd by simp_all
  have "dot_space (dot @ sp2 @ rest)"
    using r(2-4) unfolding dot_space_iff by blast
  then show "digits_letter r = Some g"
    using g(1,2,4) by (simp add: digits_letter_def Let_def t d)
qed

lemma digits_letter_group_hd:
  assumes "digits_letter_group g"
  shows "g \<noteq> []" and "\<not> is_space (hd g)"
proof -
  from assms obtain ds l where g: "g = ds @ [l]" "ds \<noteq> []" "all_chars is_digit ds"
    unfolding digits_letter_group_def by blast
  then show "g \<noteq> []" by simp
  from g have "is_digit (hd g)"
    by (cases ds) (auto simp: all_chars_def)
  then show "\<not> is_space (hd g)"
    using class_facts(2) by blast
qed

lemma re_sub_iff: "re_sub line = Some g \<longleftrightarrow> matches_sub line g"
proof
  assume m: "re_sub line = Some g"
  define ws where "ws = takeWhile is_space line"
  define r1 where "r1 = dropWhile is_space line"
  define hs where "hs = takeWhile is_hash r1"
  define r2 where "r2 = dropWhile is_hash r1"
  define sp where "sp = takeWhile is_space r2"
  define r3 where "r3 = dropWhile is_space r2"
  have unf: "re_sub line = (if hs \<noteq> [] \<and> sp \<noteq> [] then digits_letter r3 else None)"
    by (simp add: re_sub_def Let_def r1_def hs_def r2_def sp_def r3_def)
  from m unf have ne: "hs \<noteq> []" "sp \<noteq> []" and dl: "digits_letter r3 = Some g"
    by (simp_all split: if_splits)
  from dl obtain dot sp2 rest where grp: "digits_letter_group g"
    and r3: "r3 = g @ dot @ sp2 @ rest" "dot_opt dot" "sp2 \<noteq> []" "all_chars is_space sp2"
    unfolding digits_letter_iff by blast
  have "line = ws @ r1" "r1 = hs @ r2" "r2 = sp @ r3"
    by (simp_all add: ws_def r1_def hs_def r2_def sp_def r3_def)
  with r3(1) have "line = ws @ hs @ sp @ g @ dot @ sp2 @ rest" by simp
  moreover have "all_chars is_space ws" "all_chars is_hash hs" "all_chars is_space sp"
    by (simp_all add: ws_def hs_def sp_def run_takeWhile)
  ultimately show "matches_sub line g"
    using ne grp r3(2-4) unfolding matches_sub_def by blast
next
  assume "matches_sub line g"
  then obtain ws hs sp dot sp2 rest where
    line: "line = ws @ hs @ sp @ g @ dot @ sp2 @ rest" and
    p: "all_chars is_space ws" "hs \<noteq> []" "all_chars is_hash hs" "sp \<noteq> []" "all_chars is_space sp"
       "digits_letter_group g" "dot_opt dot" "sp2 \<noteq> []" "all_chars is_space sp2"
    unfolding matches_sub_def by blast
  note pre = header_prefix [OF p(1-5) digits_letter_group_hd [OF p(6)], of "dot @ sp2 @ rest"]
  have "digits_letter (g @ dot @ sp2 @ rest) = Some g"
    unfolding digits_letter_iff using p(6-9) by blast
  then show "re_sub line = Some g"
    unfolding re_sub_def Let_def line pre using p(2,4) by simp
qed

lemma re_sub3_iff: "re_sub3 line = Some g \<longleftrightarrow> matches_sub3 line g"
proof
  assume m: "re_sub3 line = Some g"
  define ws where "ws = takeWhile is_space line"
  define r1 where "r1 = dropWhile is_space line"
  define r2 where "r2 = drop 3 r1"
  define sp where "sp = takeWhile is_space r2"
  define r3 where "r3 = dropWhile is_space r2"
  have unf: "re_sub3 line =
      (if startswith r1 ''###'' \<and> sp \<noteq> [] then digits_letter r3 else None)"
    by (simp add: re_sub3_def Let_def r1_def r2_def sp_def r3_def)
  from m unf have sw: "startswith r1 ''###''" and ne: "sp \<noteq> []" and dl: "digits_letter r3 = Some g"
    by (simp_all split: if_splits)
  from dl obtain dot sp2 rest where grp: "digits_letter_group g"
    and r3: "r3 = g @ dot @ sp2 @ rest" "dot_opt dot" "sp2 \<noteq> []" "all_chars is_space sp2"
    unfolding digits_letter_iff by blast
  from sw have "take 3 r1 = ''###''"
    by (simp add: startswith_def numeral_3_eq_3)
  then have "r1 = ''###'' @ r2"
    unfolding r2_def using append_take_drop_id [of 3 r1] by simp
  moreover have "line = ws @ r1" "r2 = sp @ r3"
    by (simp_all add: ws_def r1_def sp_def r3_def)
  ultimately have "line = ws @ ''###'' @ sp @ g @ dot @ sp2 @ rest"
    using r3(1) by simp
  moreover have "all_chars is_space ws" "all_chars is_space sp"
    by (simp_all add: ws_def sp_def run_takeWhile)
  ultimately show "matches_sub3 line g"
    using ne grp r3(2-4) unfolding matches_sub3_def by blast
next
  assume "matches_sub3 line g"
  then obtain ws sp dot sp2 rest where
    line: "line = ws @ ''###'' @ sp @ g @ dot @ sp2 @ rest" and
    p: "all_chars is_space ws" "sp \<noteq> []" "all_chars is_space sp"
       "digits_letter_group g" "dot_opt dot" "sp2 \<noteq> []" "all_chars is_space sp2"
    unfolding matches_sub3_def by blast
  have hs: "''###'' \<noteq> []" "all_chars is_hash ''###''"
    by (simp_all add: all_chars_def is_hash_def)
  note pre = header_prefix [OF p(1) hs p(2,3) digits_letter_group_hd [OF p(4)], of "dot @ sp2 @ rest"]
  have dl: "digits_letter (g @ dot @ sp2 @ rest) = Some g"
    unfolding digits_letter_iff using p(4-7) by blast
  have a: "startswith (''###'' @ sp @ g @ dot @ sp2 @ rest) ''###''"
    by (simp add: startswith_def)
  have b: "drop 3 (''###'' @ sp @ g @ dot @ sp2 @ rest) = sp @ g @ dot @ sp2 @ rest"
    by simp
  show "re_sub3 line = Some g"
    unfolding re_sub3_def Let_def line pre(1) b pre(4,5) using a p(2) dl by simp
qed

lemma re_simple_iff: "re_simple s = Some g \<longleftrightarrow> matches_simple s g"
proof
  assume m: "re_simple s = Some g"
  define hs where "hs = takeWhile is_hash s"
  define r2 where "r2 = dropWhile is_hash s"
  define sp where "sp = takeWhile is_space r2"
  define r3 where "r3 = dropWhile is_space r2"
  define ds where "ds = takeWhile is_digit r3"
  define r4 where "r4 = dropWhile is_digit r3"
  define l where "l = (case r4 of [] \<Rightarrow> [] | c # _ \<Rightarrow> if is_lower_az c then [c] else [])"
  define r5 where "r5 = drop (length l) r4"
  have unf: "re_simple s = (if hs \<noteq> [] \<and> ds \<noteq> [] \<and> dot_space r5 then Some (ds @ l) else None)"
    by (simp add: re_simple_def Let_def hs_def r2_def r3_def ds_def r4_def l_def r5_def)
  from m unf have g: "g = ds @ l" and ne: "hs \<noteq> []" "ds \<noteq> []" and tail: "dot_space r5"
    by (simp_all split: if_splits)
  from tail obtain dot sp2 rest where r5: "r5 = dot @ sp2 @ rest" "dot_opt dot" "sp2 \<noteq> []" "all_chars is_space sp2"
    unfolding dot_space_iff by blast
  have l_cases: "l = [] \<or> (\<exists>c. l = [c] \<and> is_lower_az c)"
    by (auto simp: l_def split: list.splits)
  have "r4 = l @ r5"
    by (auto simp: l_def r5_def split: list.splits)
  moreover have "s = hs @ r2" "r2 = sp @ r3" "r3 = ds @ r4"
    by (simp_all add: hs_def r2_def sp_def r3_def ds_def r4_def)
  ultimately have "s = hs @ sp @ g @ dot @ sp2 @ rest"
    using r5(1) g by simp
  moreover have "all_chars is_hash hs" "all_chars is_space sp" "all_chars is_digit ds"
    by (simp_all add: hs_def sp_def ds_def run_takeWhile)
  ultimately show "matches_simple s g"
    using ne g l_cases r5(2-4) unfolding matches_simple_def by blast
next
  assume "matches_simple s g"
  then obtain hs sp ds l dot sp2 rest where
    s: "s = hs @ sp @ g @ dot @ sp2 @ rest" and
    p: "hs \<noteq> []" "all_chars is_hash hs" "all_chars is_space sp" "g = ds @ l" "ds \<noteq> []" "all_chars is_digit ds"
       "l = [] \<or> (\<exists>c. l = [c] \<and> is_lower_az c)" "dot_opt dot" "sp2 \<noteq> []" "all_chars is_space sp2"
    unfolding matches_simple_def by blast
  let ?tail = "dot @ sp2 @ rest"
  from p(5,6) have dig: "is_digit (hd ds)"
    by (cases ds) (auto simp: all_chars_def)
  have hd_ds: "hd (ds @ l @ ?tail) = hd ds"
    using p(5) by simp
  have n1: "\<not> is_hash (hd (sp @ ds @ l @ ?tail))"
  proof (cases sp)
    case Nil
    with dig hd_ds class_facts(7) show ?thesis by simp
  next
    case (Cons c cs)
    with p(3) have "is_space c" by (simp add: all_chars_def)
    with Cons class_facts(1) show ?thesis by simp
  qed
  have n2: "\<not> is_space (hd (ds @ l @ ?tail))"
    using dig hd_ds class_facts(2) by metis
  have n3: "\<not> is_digit (hd (l @ ?tail))" and n4: "l = [] \<Longrightarrow> \<not> is_lower_az (hd ?tail)"
    using p(7) dot_space_hd [OF p(8,9,10), of rest] class_facts(5) by auto
  have tail_ne: "?tail \<noteq> []"
    using p(9) by simp
  have s': "s = hs @ (sp @ ds @ l @ ?tail)"
    using s p(4) by simp
  have t1: "takeWhile is_hash s = hs" and d1: "dropWhile is_hash s = sp @ ds @ l @ ?tail"
    unfolding s' using span_run [OF p(2)] n1 by blast+
  have d2: "dropWhile is_space (sp @ ds @ l @ ?tail) = ds @ l @ ?tail"
    using span_run(2) [OF p(3)] n2 by blast
  have t3: "takeWhile is_digit (ds @ l @ ?tail) = ds"
    and d3: "dropWhile is_digit (ds @ l @ ?tail) = l @ ?tail"
    using span_run [OF p(6)] n3 by blast+
  have letter: "(case l @ ?tail of [] \<Rightarrow> [] | c # _ \<Rightarrow> if is_lower_az c then [c] else []) = l"
  proof (cases "l = []")
    case True
    with n4 tail_ne show ?thesis
      by (cases ?tail) auto
  next
    case False
    with p(7) obtain c where "l = [c]" "is_lower_az c" by blast
    then show ?thesis by simp
  qed
  have ds': "dot_space ?tail"
    using p(8,9,10) unfolding dot_space_iff by blast
  show "re_simple s = Some g"
    unfolding re_simple_def Let_def t1 d1 d2 t3 d3 letter using p(1,4,5) ds' by simp
qed

subsection \<open>The example rubrics\<close>

text \<open>The example rubrics are for the processing notebook.\<close>

lemma processing_id_not_analysis:
  "py_in ''02-rnaseq_analysis'' (py_lower (py_lower ''01-RNAseq_processing.ipynb'')) = False"
  by code_simp

lemma rubric_two_dialect: "is_analysis_notebook rubric_two = False"
  by (simp add: is_analysis_notebook_def rubric_two_def processing_id_not_analysis)

lemma rubric_sub_dialect: "is_analysis_notebook rubric_sub = False"
  by (simp add: is_analysis_notebook_def rubric_sub_def processing_id_not_analysis)

section \<open>The unit classifier: question cells and code cells\<close>

text \<open>
  C4. For a cell of any kind whose joined and trimmed source begins with
  \<^verbatim>\<open>Question\<close>, the classifier answers "complete" exactly when the text has a colon
  and the trimmed text after the first colon is not empty. The cell's kind, outputs and
  execution marker are not looked at.
\<close>

theorem question_cell_complete_iff:
  assumes "cell_source cell = Inr joined"
      and "startswith (py_strip joined) ''Question''"
  shows "has_content cell =
           Inr (\<exists>i<length (py_strip joined).
                  py_strip joined ! i = CHR '':'' \<and> (\<forall>j<i. py_strip joined ! j \<noteq> CHR '':'') \<and>
                  py_strip (drop (i + 1) (py_strip joined)) \<noteq> [])"
  using assms unfolding first_occurrence_find
  by (simp add: has_content_def split: option.splits)

text \<open>
  \<^verbatim>\<open>Question: yes\<close> is complete and \<^verbatim>\<open>Question: \<close> is not, here in a markdown and
  in a raw cell.
\<close>

theorem question_cell_complete_iff_witness:
  "has_content (text_cell ''markdown'' ''Question: yes'') = Inr True \<and>
   has_content (text_cell ''raw'' ''Question: '') = Inr False"
proof -
  have a: "cell_source (text_cell ''markdown'' ''Question: yes'') = Inr ''Question: yes''"
    by code_simp
  have b: "startswith (py_strip ''Question: yes'') ''Question''"
    by code_simp
  have c: "cell_source (text_cell ''raw'' ''Question: '') = Inr ''Question: ''"
    by code_simp
  have d: "startswith (py_strip ''Question: '') ''Question''"
    by code_simp
  have e: "(case py_find (py_strip ''Question: yes'') CHR '':'' of None \<Rightarrow> False
            | Some k \<Rightarrow> py_strip (drop (k + 1) (py_strip ''Question: yes'')) \<noteq> []) = True"
    by code_simp
  have f: "(case py_find (py_strip ''Question: '') CHR '':'' of None \<Rightarrow> False
            | Some k \<Rightarrow> py_strip (drop (k + 1) (py_strip ''Question: '')) \<noteq> []) = False"
    by code_simp
  show ?thesis
    using question_cell_complete_iff [OF a b] question_cell_complete_iff [OF c d]
    unfolding first_occurrence_find e f by simp
qed

text \<open>
  C3 as stated fails: the question rule is tried first for every kind of cell, so a
  code cell with one output whose text is \<^verbatim>\<open>Question 1\<close> (no colon) is incomplete.
\<close>

theorem code_cell_with_output_counterexample:
  "py_getitem question_code_cell ''cell_type'' = Inr (JStr ''code'') \<and>
   cell_source question_code_cell = Inr ''Question 1'' \<and>
   py_strip ''Question 1'' \<noteq> [] \<and>
   py_get question_code_cell ''outputs'' (JArr []) =
     Inr (JArr [JObj [(''output_type'', JStr ''stream'')]]) \<and>
   py_len (JArr [JObj [(''output_type'', JStr ''stream'')]]) = Inr 1 \<and>
   has_content question_code_cell = Inr False"
  by code_simp

text \<open>
  C3, amended. A code cell whose trimmed source is non-empty and does not begin with
  \<^verbatim>\<open>Question\<close>, and whose outputs collection is non-empty, is classified complete,
  whatever its execution marker is.
\<close>

theorem code_cell_with_output_complete:
  assumes "py_getitem cell ''cell_type'' = Inr (JStr ''code'')"
      and "cell_source cell = Inr joined"
      and "py_strip joined \<noteq> []"
      and "\<not> startswith (py_strip joined) ''Question''"
      and "py_get cell ''outputs'' (JArr []) = Inr outputs"
      and "py_len outputs = Inr n"
      and "0 < n"
  shows "has_content cell = Inr True"
proof -
  from assms(1) obtain items where "cell = JObj items"
    by (auto simp: py_getitem_Inr)
  then obtain marker where "py_get cell ''execution_count'' JNull = Inr marker"
    by (simp add: py_get_JObj)
  with assms show ?thesis
    by (simp add: has_content_def)
qed

text \<open>A cell that printed something, with the execution marker absent (null).\<close>

theorem code_cell_with_output_complete_witness:
  "has_content (run_cell ''x = 1'' JNull) = Inr True"
proof -
  have a: "py_getitem (run_cell ''x = 1'' JNull) ''cell_type'' = Inr (JStr ''code'')"
    by code_simp
  have b: "cell_source (run_cell ''x = 1'' JNull) = Inr ''x = 1''"
    by code_simp
  have c: "py_strip ''x = 1'' \<noteq> []"
    by code_simp
  have d: "\<not> startswith (py_strip ''x = 1'') ''Question''"
    by code_simp
  have e: "py_get (run_cell ''x = 1'' JNull) ''outputs'' (JArr []) =
             Inr (JArr [JObj [(''output_type'', JStr ''stream'')]])"
    by code_simp
  have f: "py_len (JArr [JObj [(''output_type'', JStr ''stream'')]]) = Inr 1"
    by code_simp
  show ?thesis
    using code_cell_with_output_complete [OF a b c d e f] by simp
qed

section \<open>The default grader: scoring\<close>

text \<open>A property that every step of a loop keeps holds when the loop is over.\<close>

lemma run_cells_invariant_on:
  assumes "run_cells body cells st = Inr st'" and "P st"
      and "\<And>cell s s'. cell \<in> set cells \<Longrightarrow> body cell s = Inr s' \<Longrightarrow> P s \<Longrightarrow> P s'"
  shows "P st'"
  using assms
proof (induction cells arbitrary: st)
  case Nil
  then show ?case by simp
next
  case (Cons cell cells)
  from Cons.prems(1) obtain s1 where s1: "body cell st = Inr s1" "run_cells body cells s1 = Inr st'"
    by (auto simp: pybind_eq_Inr)
  have "P s1"
    using Cons.prems(3) [OF _ s1(1) Cons.prems(2)] by simp
  moreover have "P s'" if "c \<in> set cells" "body c s = Inr s'" "P s" for c s s'
    using Cons.prems(3) [of c s s'] that by simp
  ultimately show ?case
    using Cons.IH [OF s1(2)] by blast
qed

lemma get0_upd: "get0 (m(k \<mapsto> v)) k' = (if k' = k then v else get0 m k')"
  by (simp add: get0_def)

lemma counters_paired_initial: "counters_paired initial_tracking"
  by (simp add: counters_paired_def initial_tracking_def)

lemma counters_paired_current [simp]:
  "counters_paired (st\<lparr>current_section := x\<rparr>) = counters_paired st"
  "counters_paired (st\<lparr>current_subsection := y\<rparr>) = counters_paired st"
  by (simp_all add: counters_paired_def)

lemma init_tracking_paired:
  "counters_paired st \<Longrightarrow> counters_paired (init_tracking cfg key st)"
  by (simp add: counters_paired_def init_tracking_def)

lemma mark_headers_paired:
  "counters_paired st \<Longrightarrow> counters_paired (mark_headers analysis cfg source st)"
  by (simp add: mark_headers_def Let_def init_tracking_paired)

lemma count_code_paired:
  assumes "count_code a cell st = Inr st'" and "counters_paired st"
  shows "counters_paired st'"
  using assms
  by (auto simp: count_code_def counters_paired_def Let_def pybind_eq_Inr
           split: option.splits if_splits prod.splits)

lemma count_raw_paired:
  assumes "count_raw a cell st = Inr st'" and "counters_paired st"
  shows "counters_paired st'"
  using assms
  by (auto simp: count_raw_def counters_paired_def Let_def pybind_eq_Inr
           split: option.splits if_splits prod.splits)

lemma count_cell_paired:
  assumes "count_cell cfg cell ct st = Inr st'" and "counters_paired st"
  shows "counters_paired st'"
  using assms
  by (auto simp: count_cell_def split: option.splits if_splits
           dest: count_code_paired count_raw_paired)

lemma enhanced_cell_paired:
  assumes "enhanced_cell analysis cfg cell st = Inr st'" and "counters_paired st"
  shows "counters_paired st'"
  using assms
  by (auto simp: enhanced_cell_def pybind_eq_Inr split: if_splits
           dest: count_cell_paired mark_headers_paired)

lemma scan_enhanced_paired:
  assumes "scan_enhanced notebook cfg = Inr st"
  shows "counters_paired st"
proof -
  from assms obtain cells
    where "run_cells (enhanced_cell (is_analysis_notebook cfg) cfg) cells initial_tracking = Inr st"
    by (auto simp: scan_enhanced_def pybind_eq_Inr)
  then show ?thesis
    by (rule run_cells_invariant_on) (auto intro: counters_paired_initial enhanced_cell_paired)
qed

lemma score_section_other:
  assumes "score_section item (st, secs, t) = (st', secs', t')" and "fst item \<noteq> k"
  shows "section_completed_code st' k = section_completed_code st k"
    and "section_completed_raw st' k = section_completed_raw st k"
    and "secs' k = secs k"
  using assms
  by (auto simp: score_section_def Let_def split: prod.splits option.splits if_splits)

lemma score_section_self:
  assumes "score_section (k, e) (st, secs, t) = (st', secs', t')"
  shows "secs' k = Some (section_result st k e)"
  using assms
  by (auto simp: score_section_def section_result_def Let_def get0_def
           split: prod.splits option.splits if_splits)

lemma fold_score_other:
  assumes "fold score_section items (st, secs, t) = (st', secs', t')"
      and "k \<notin> fst ` set items"
  shows "section_completed_code st' k = section_completed_code st k \<and>
         section_completed_raw st' k = section_completed_raw st k \<and> secs' k = secs k"
  using assms
proof (induction items arbitrary: st secs t)
  case Nil
  then show ?case by simp
next
  case (Cons item items)
  obtain st1 secs1 t1 where step: "score_section item (st, secs, t) = (st1, secs1, t1)"
    by (cases "score_section item (st, secs, t)") auto
  from Cons.prems(2) have ne: "fst item \<noteq> k" and rest: "k \<notin> fst ` set items"
    by auto
  from Cons.prems(1) step have "fold score_section items (st1, secs1, t1) = (st', secs', t')"
    by simp
  from Cons.IH [OF this rest] score_section_other [OF step ne] show ?case
    by simp
qed

lemma section_result_cong:
  assumes "section_completed_code st1 k = section_completed_code st k"
      and "section_completed_raw st1 k = section_completed_raw st k"
  shows "section_result st1 k e = section_result st k e"
proof -
  have a: "get0 (section_completed_code st1) k = get0 (section_completed_code st) k"
    and b: "get0 (section_completed_raw st1) k = get0 (section_completed_raw st) k"
    using assms by (simp_all add: get0_def)
  show ?thesis
    by (simp only: section_result_def a b assms(1))
qed

lemma fold_score_member:
  assumes "fold score_section items (st, secs, t) = (st', secs', t')"
      and "distinct (map fst items)" and "(k, e) \<in> set items"
  shows "secs' k = Some (section_result st k e)"
  using assms
proof (induction items arbitrary: st secs t)
  case Nil
  then show ?case by simp
next
  case (Cons item items)
  obtain st1 secs1 t1 where step: "score_section item (st, secs, t) = (st1, secs1, t1)"
    by (cases "score_section item (st, secs, t)") auto
  from Cons.prems(1) step have rest: "fold score_section items (st1, secs1, t1) = (st', secs', t')"
    by simp
  show ?case
  proof (cases "item = (k, e)")
    case True
    with Cons.prems(2) have "k \<notin> fst ` set items" by auto
    from fold_score_other [OF rest this] score_section_self [of k e st secs t st1 secs1 t1] step True
    show ?thesis by simp
  next
    case False
    with Cons.prems(3) have mem: "(k, e) \<in> set items" by auto
    then have "k \<in> fst ` set items" by force
    with Cons.prems(2) have ne: "fst item \<noteq> k" by auto
    from Cons.prems(2) have "distinct (map fst items)" by simp
    from Cons.IH [OF rest this mem] have "secs' k = Some (section_result st1 k e)" .
    with section_result_cong [of st1 k st e] score_section_other [OF step ne]
    show ?thesis by simp
  qed
qed

text \<open>
  C1. Whenever the default grader returns a result, the entry of each rubric key \<open>k\<close>
  with expected counts \<open>c\<close> (code) and \<open>r\<close> (raw) holds
  \<open>earned_code = min (completed_code k) c\<close> and \<open>earned_raw = min (completed_raw k) r\<close>,
  where the completed counts are the counters the scan left (zero for a key the scan
  never initialised); so neither earned count exceeds its expected count. The rubric is
  a dict: its keys are distinct.
\<close>

theorem earned_is_capped:
  assumes "scan_enhanced notebook cfg = Inr st"
      and "distinct (map fst (sections cfg))"
      and "(k, e) \<in> set (sections cfg)"
      and "split_counts e = Some (c, r)"
  shows "\<exists>res earned_code earned_raw.
           grade_notebook_enhanced notebook cfg = Inr res \<and>
           r_sections res k =
             Some (Split_score earned_code earned_raw (earned_code + earned_raw) c r (c + r)) \<and>
           earned_code = min (get0 (section_completed_code st) k) c \<and>
           earned_raw = min (get0 (section_completed_raw st) k) r \<and>
           earned_code \<le> c \<and> earned_raw \<le> r"
proof -
  obtain st' secs t where cp: "calculate_points cfg st = (st', secs, t)"
    by (cases "calculate_points cfg st") auto
  then have "fold score_section (sections cfg) (st, Map.empty, 0) = (st', secs, t)"
    by (simp add: calculate_points_def)
  from fold_score_member [OF this assms(2,3)] have "secs k = Some (section_result st k e)" .
  moreover from scan_enhanced_paired [OF assms(1)]
  have "section_completed_code st k = None \<Longrightarrow> get0 (section_completed_raw st) k = 0"
    by (simp add: counters_paired_def get0_def)
  ultimately have "secs k =
      Some (Split_score (min (get0 (section_completed_code st) k) c)
             (min (get0 (section_completed_raw st) k) r)
             (min (get0 (section_completed_code st) k) c + min (get0 (section_completed_raw st) k) r)
             c r (c + r))"
    using assms(4) by (auto simp: section_result_def Let_def)
  with cp assms(1) show ?thesis
    by (simp add: grade_notebook_enhanced_def enhanced_result_def)
qed


text \<open>The scenario of the specification: section 1 earns one code and one raw unit.\<close>

theorem earned_is_capped_witness:
  "\<exists>res. grade_notebook_enhanced notebook_scenario rubric_two = Inr res \<and>
         r_sections res ''1.'' = Some (Split_score 1 1 2 2 1 3)"
proof -
  have scan: "scan_enhanced notebook_scenario rubric_two =
      pybind (py_getitem notebook_scenario ''cells'') (\<lambda>cs. pybind (py_iter cs) (\<lambda>cells.
        run_cells (enhanced_cell False rubric_two) cells initial_tracking))"
    by (simp add: scan_enhanced_def rubric_two_dialect)
  have "\<not> isl (scan_enhanced notebook_scenario rubric_two)"
    unfolding scan by code_simp
  then have a: "scan_enhanced notebook_scenario rubric_two =
                  Inr (projr (scan_enhanced notebook_scenario rubric_two))"
    by simp
  have b: "distinct (map fst (sections rubric_two))"
    by code_simp
  have c: "(''1.'', Dict \<lparr>code_cells = Some 2, raw_cells = Some 1, points = None, special = None\<rparr>)
             \<in> set (sections rubric_two)"
    by (simp add: rubric_two_def)
  have d: "split_counts (Dict \<lparr>code_cells = Some 2, raw_cells = Some 1, points = None, special = None\<rparr>)
             = Some (2, 1)"
    by code_simp
  have e: "get0 (section_completed_code (projr (scan_enhanced notebook_scenario rubric_two))) ''1.'' = 1"
    unfolding scan by code_simp
  have f: "get0 (section_completed_raw (projr (scan_enhanced notebook_scenario rubric_two))) ''1.'' = 1"
    unfolding scan by code_simp
  show ?thesis
    using earned_is_capped [OF a b c d] unfolding e f by auto
qed

section \<open>The default grader: sections the document never reaches\<close>

lemma init_tracking_other:
  "key \<noteq> k \<Longrightarrow> section_completed_code (init_tracking cfg key st) k = section_completed_code st k"
  by (simp add: init_tracking_def)

lemma mark_headers_unseen:
  assumes "k \<notin> set ((if deseq_anchor source then [''2.''] else []) @
                    main_sections analysis source @ subsections analysis source)"
  shows "section_completed_code (mark_headers analysis cfg source st) k =
           section_completed_code st k"
proof -
  have a: "deseq_anchor source \<Longrightarrow> ''2.'' \<noteq> k"
    using assms by auto
  have b: "main_sections analysis source \<noteq> [] \<Longrightarrow> last (main_sections analysis source) \<noteq> k"
    using assms last_in_set by fastforce
  have c: "subsections analysis source \<noteq> [] \<Longrightarrow> last (subsections analysis source) \<noteq> k"
    using assms last_in_set by fastforce
  show ?thesis
    using a b c by (simp add: mark_headers_def Let_def init_tracking_other)
qed

lemma count_code_unseen:
  assumes "count_code a cell st = Inr st'" and "section_completed_code st k = None"
  shows "section_completed_code st' k = None"
  using assms
  by (auto simp: count_code_def Let_def pybind_eq_Inr
           split: option.splits if_splits prod.splits)

lemma count_raw_unseen:
  assumes "count_raw a cell st = Inr st'" and "section_completed_code st k = None"
  shows "section_completed_code st' k = None"
  using assms
  by (auto simp: count_raw_def Let_def pybind_eq_Inr
           split: option.splits if_splits prod.splits)

lemma count_cell_unseen:
  assumes "count_cell cfg cell ct st = Inr st'" and "section_completed_code st k = None"
  shows "section_completed_code st' k = None"
  using assms
  by (auto simp: count_cell_def split: option.splits if_splits
           dest: count_code_unseen count_raw_unseen)

lemma enhanced_cell_unseen:
  assumes "enhanced_cell analysis cfg cell st = Inr st'" and "k \<notin> set (header_keys analysis cell)"
      and "section_completed_code st k = None"
  shows "section_completed_code st' k = None"
proof -
  from assms(1) obtain ct st1 where ct: "py_getitem cell ''cell_type'' = Inr ct"
    and st1: "(if ct = JStr ''markdown''
               then pybind (cell_source cell) (\<lambda>source. Inr (mark_headers analysis cfg source st))
               else Inr st) = Inr st1"
    and cnt: "count_cell cfg cell ct st1 = Inr st'"
    by (auto simp: enhanced_cell_def pybind_eq_Inr)
  have "section_completed_code st1 k = None"
  proof (cases "ct = JStr ''markdown''")
    case True
    with st1 obtain source where src: "cell_source cell = Inr source"
      and eq: "st1 = mark_headers analysis cfg source st"
      by (auto simp: pybind_eq_Inr)
    from assms(2) ct True src
    have "k \<notin> set ((if deseq_anchor source then [''2.''] else []) @
                    main_sections analysis source @ subsections analysis source)"
      by (simp add: header_keys_def)
    from mark_headers_unseen [OF this] eq assms(3) show ?thesis by simp
  next
    case False
    with st1 assms(3) show ?thesis by simp
  qed
  with cnt show ?thesis by (rule count_cell_unseen)
qed

lemma section_result_unseen:
  "section_completed_code st k = None \<Longrightarrow> section_result st k e = zero_score e"
  by (simp add: section_result_def zero_score_def get0_def Let_def split: option.splits)

lemma score_section_zero:
  assumes "score_section item (st, secs, t) = (st', secs', t')"
      and "\<forall>k. get0 (section_completed_code st) k = 0 \<and> get0 (section_completed_raw st) k = 0"
  shows "t' = t \<and>
         (\<forall>k. get0 (section_completed_code st') k = 0 \<and> get0 (section_completed_raw st') k = 0)"
  using assms
  by (auto simp: score_section_def Let_def get0_upd split: prod.splits option.splits if_splits)

lemma fold_score_zero:
  assumes "fold score_section items (st, secs, t) = (st', secs', t')"
      and "\<forall>k. get0 (section_completed_code st) k = 0 \<and> get0 (section_completed_raw st) k = 0"
  shows "t' = t"
  using assms
proof (induction items arbitrary: st secs t)
  case Nil
  then show ?case by simp
next
  case (Cons item items)
  obtain st1 secs1 t1 where step: "score_section item (st, secs, t) = (st1, secs1, t1)"
    by (cases "score_section item (st, secs, t)") auto
  from Cons.prems(1) step have rest: "fold score_section items (st1, secs1, t1) = (st', secs', t')"
    by simp
  from score_section_zero [OF step Cons.prems(2)] Cons.IH [OF rest] show ?case
    by simp
qed

text \<open>
  C5. With the default grader, a document with zero cells is graded (no exception),
  its \<open>total_points\<close> is 0, and every rubric key is in the result with nothing earned
  and its expected totals. In any graded document, a rubric key that is the key of no
  header line of any markdown cell has that same entry.
\<close>

theorem unseen_sections_score_zero:
  assumes "py_getitem notebook ''cells'' = Inr cs"
      and "py_iter cs = Inr cells"
      and "distinct (map fst (sections cfg))"
  shows "(cells = [] \<longrightarrow>
            (\<exists>res. grade_notebook_enhanced notebook cfg = Inr res \<and> r_total_points res = 0 \<and>
                   (\<forall>(k, e) \<in> set (sections cfg). r_sections res k = Some (zero_score e)))) \<and>
         (\<forall>res k e.
            grade_notebook_enhanced notebook cfg = Inr res \<and> (k, e) \<in> set (sections cfg) \<and>
            (\<forall>cell \<in> set cells. k \<notin> set (header_keys (is_analysis_notebook cfg) cell))
            \<longrightarrow> r_sections res k = Some (zero_score e))"
proof (intro conjI impI allI)
  fix res k e
  assume h: "grade_notebook_enhanced notebook cfg = Inr res \<and> (k, e) \<in> set (sections cfg) \<and>
             (\<forall>cell \<in> set cells. k \<notin> set (header_keys (is_analysis_notebook cfg) cell))"
  then obtain st where scan: "scan_enhanced notebook cfg = Inr st"
    and res: "res = enhanced_result cfg st"
    by (auto simp: grade_notebook_enhanced_def pybind_eq_Inr)
  from scan assms(1,2)
  have run: "run_cells (enhanced_cell (is_analysis_notebook cfg) cfg) cells initial_tracking = Inr st"
    by (simp add: scan_enhanced_def)
  have none: "section_completed_code st k = None"
  proof (rule run_cells_invariant_on [OF run])
    show "section_completed_code initial_tracking k = None"
      by (simp add: initial_tracking_def)
  next
    fix cell s s'
    assume "cell \<in> set cells" "enhanced_cell (is_analysis_notebook cfg) cfg cell s = Inr s'"
      "section_completed_code s k = None"
    with h show "section_completed_code s' k = None"
      by (blast intro: enhanced_cell_unseen)
  qed
  obtain st' secs t where cp: "calculate_points cfg st = (st', secs, t)"
    by (cases "calculate_points cfg st") auto
  then have "fold score_section (sections cfg) (st, Map.empty, 0) = (st', secs, t)"
    by (simp add: calculate_points_def)
  from fold_score_member [OF this assms(3)] h have "secs k = Some (section_result st k e)"
    by blast
  with none cp res show "r_sections res k = Some (zero_score e)"
    by (simp add: enhanced_result_def section_result_unseen)
next
  assume empty: "cells = []"
  with assms(1,2) have scan: "scan_enhanced notebook cfg = Inr initial_tracking"
    by (simp add: scan_enhanced_def)
  obtain st' secs t where cp: "calculate_points cfg initial_tracking = (st', secs, t)"
    by (cases "calculate_points cfg initial_tracking") auto
  then have fold: "fold score_section (sections cfg) (initial_tracking, Map.empty, 0) = (st', secs, t)"
    by (simp add: calculate_points_def)
  have "t = 0"
    by (rule fold_score_zero [OF fold]) (simp add: initial_tracking_def get0_def)
  moreover have "secs k = Some (zero_score e)" if "(k, e) \<in> set (sections cfg)" for k e
    using fold_score_member [OF fold assms(3) that]
    by (simp add: section_result_unseen initial_tracking_def)
  ultimately show "\<exists>res. grade_notebook_enhanced notebook cfg = Inr res \<and> r_total_points res = 0 \<and>
                   (\<forall>(k, e) \<in> set (sections cfg). r_sections res k = Some (zero_score e))"
    using scan cp by (auto simp: grade_notebook_enhanced_def enhanced_result_def)
qed

text \<open>
  The empty document against the two-section rubric, and section 2 of the scenario
  document, which has a header for section 1 only.
\<close>

theorem unseen_sections_score_zero_witness:
  "(\<exists>res. grade_notebook_enhanced empty_notebook rubric_two = Inr res \<and>
          r_total_points res = 0 \<and>
          r_sections res ''1.'' = Some (Split_score 0 0 0 2 1 3) \<and>
          r_sections res ''2.'' = Some (Split_score 0 0 0 1 2 3)) \<and>
   (\<exists>res. grade_notebook_enhanced notebook_scenario rubric_two = Inr res \<and>
          r_sections res ''2.'' = Some (Split_score 0 0 0 1 2 3))"
proof -
  let ?d1 = "\<lparr>code_cells = Some 2, raw_cells = Some 1, points = None, special = None\<rparr>"
  let ?d2 = "\<lparr>code_cells = Some 1, raw_cells = Some 2, points = None, special = None\<rparr>"
  have dist: "distinct (map fst (sections rubric_two))"
    by code_simp
  have m1: "(''1.'', Dict ?d1) \<in> set (sections rubric_two)"
    and m2: "(''2.'', Dict ?d2) \<in> set (sections rubric_two)"
    by (simp_all add: rubric_two_def)
  have z1: "zero_score (Dict ?d1) = Split_score 0 0 0 2 1 3"
    and z2: "zero_score (Dict ?d2) = Split_score 0 0 0 1 2 3"
    by code_simp+
  have e1: "py_getitem empty_notebook ''cells'' = Inr (JArr [])"
    by code_simp
  have e2: "py_iter (JArr []) = Inr []"
    by code_simp
  from unseen_sections_score_zero [OF e1 e2 dist] m1 m2 z1 z2
  have first: "\<exists>res. grade_notebook_enhanced empty_notebook rubric_two = Inr res \<and>
                 r_total_points res = 0 \<and>
                 r_sections res ''1.'' = Some (Split_score 0 0 0 2 1 3) \<and>
                 r_sections res ''2.'' = Some (Split_score 0 0 0 1 2 3)"
    by fastforce
  define cells where "cells =
     [text_cell ''markdown'' ''# 1. Title'', run_cell ''x = 1'' (JNum 1),
      JObj [(''cell_type'', JStr ''code''), (''source'', JArr []), (''outputs'', JArr []),
            (''execution_count'', JNull)],
      text_cell ''raw'' ''answer'']"
  have s1: "py_getitem notebook_scenario ''cells'' = Inr (JArr cells)"
    unfolding cells_def by code_simp
  have s2: "py_iter (JArr cells) = Inr cells"
    by (simp add: py_iter_def)
  have "\<not> isl (grade_notebook_enhanced notebook_scenario rubric_two)"
    unfolding grade_notebook_enhanced_def scan_enhanced_def rubric_two_dialect by code_simp
  then obtain res where res: "grade_notebook_enhanced notebook_scenario rubric_two = Inr res"
    by (cases "grade_notebook_enhanced notebook_scenario rubric_two") auto
  have unseen: "\<forall>cell \<in> set cells. ''2.'' \<notin> set (header_keys (is_analysis_notebook rubric_two) cell)"
    unfolding cells_def rubric_two_dialect by code_simp
  from unseen_sections_score_zero [OF s1 s2 dist] res m2 unseen z2
  have "r_sections res ''2.'' = Some (Split_score 0 0 0 1 2 3)"
    by fastforce
  with res first show ?thesis by blast
qed

section \<open>The default grader: a top-level header after a subsection\<close>

text \<open>
  A markdown cell with no subsection header leaves \<^verbatim>\<open>current_subsection\<close> as it
  was, whatever top-level header the cell holds; so once a subsection is set, the
  active section stays that subsection.
\<close>

lemma mark_headers_keeps_subsection:
  assumes "subsections analysis source = []"
  shows "current_subsection (mark_headers analysis cfg source st) = current_subsection st"
  using assms by (simp add: mark_headers_def Let_def init_tracking_def)

lemma active_section_after_top_level_header:
  assumes "subsections analysis source = []"
      and "truthy (current_subsection st)"
  shows "active_section (mark_headers analysis cfg source st) = active_section st"
  using assms mark_headers_keeps_subsection [OF assms(1), of cfg st]
  by (simp add: active_section_def)

text \<open>
  C2 does not hold of the code. In the document \<open>notebook_sub\<close> the header of section 2
  follows the header of subsection 1a, and the code cell after it is still counted for
  1a: the scan ends with section 2 current and 1a active, 1a has earned the unit and
  section 2 has earned nothing.
\<close>

theorem top_level_header_does_not_end_subsection:
  "(case scan_enhanced notebook_sub rubric_sub of
      Inl _ \<Rightarrow> False
    | Inr st \<Rightarrow> current_section st = Some ''2.'' \<and> active_section st = Some ''1a.'') \<and>
   (case grade_notebook_enhanced notebook_sub rubric_sub of
      Inl _ \<Rightarrow> False
    | Inr res \<Rightarrow>
        r_sections res ''1a.'' = Some (Split_score 1 0 1 1 0 1) \<and>
        r_sections res ''2.'' = Some (Split_score 0 0 0 1 0 1))"
  unfolding grade_notebook_enhanced_def scan_enhanced_def rubric_sub_dialect by code_simp

section \<open>Header lines in the specialised graders\<close>

lemma first_header_skip:
  assumes "\<forall>l \<in> set pre. \<not> (startswith l ''#'' \<and> re_simple (py_strip l) \<noteq> None)"
  shows "first_header (pre @ rest) = first_header rest"
  using assms by (induction pre) (auto split: option.splits)

lemma sp_current_md_mark:
  "first_header (split_nl source) = Some key \<Longrightarrow> sp_current (md_mark source st) = Some key"
  by (simp add: md_mark_def Let_def)

lemma sp_current_qa_mark:
  "first_header (split_nl source) = Some key \<Longrightarrow> sp_current (qa_mark source st) = Some key"
  by (simp add: qa_mark_def Let_def)

lemma map_filter_append:
  "List.map_filter f (xs @ ys) = List.map_filter f xs @ List.map_filter f ys"
  by (simp add: List.map_filter_def)

lemma map_filter_all_None:
  "\<forall>x \<in> set xs. f x = None \<Longrightarrow> List.map_filter f xs = []"
  by (induction xs) (simp_all add: List.map_filter_def)

lemma current_section_init_tracking [simp]:
  "current_section (init_tracking cfg key st) = current_section st"
  by (simp add: init_tracking_def)

lemma current_section_mark_headers:
  assumes "main_sections analysis source \<noteq> []"
  shows "current_section (mark_headers analysis cfg source st) =
           Some (last (main_sections analysis source))"
  using assms by (simp add: mark_headers_def Let_def)

text \<open>
  C10. Let the text that a grader splits into lines have the line \<open>line\<close> between the
  lines \<open>pre\<close> and \<open>post\<close>. In both specialised graders, if \<open>line\<close> is the first line
  that starts with \<^verbatim>\<open>#\<close> and matches the header pattern, its key becomes the current
  section, whatever header lines \<open>post\<close> holds. In the default grader it is the last
  line with a top-level header whose key becomes the current section.
\<close>

theorem first_header_line_wins:
  assumes "split_nl source = pre @ line # post"
  shows "((\<forall>l \<in> set pre. \<not> (startswith l ''#'' \<and> re_simple (py_strip l) \<noteq> None)) \<and>
          startswith line ''#'' \<and> re_simple (py_strip line) = Some g
          \<longrightarrow> sp_current (md_mark source st) = Some (g @ ''.'') \<and>
              sp_current (qa_mark source st) = Some (g @ ''.'')) \<and>
         (main_header analysis line = Some g \<and> (\<forall>l \<in> set post. main_header analysis l = None)
          \<longrightarrow> current_section (mark_headers analysis cfg source st') = Some (g @ ''.''))"
proof (intro conjI impI)
  assume h: "(\<forall>l \<in> set pre. \<not> (startswith l ''#'' \<and> re_simple (py_strip l) \<noteq> None)) \<and>
             startswith line ''#'' \<and> re_simple (py_strip line) = Some g"
  then have "first_header (pre @ line # post) = first_header (line # post)"
    by (intro first_header_skip) blast
  with h assms have fh: "first_header (split_nl source) = Some (g @ ''.'')"
    by simp
  from sp_current_md_mark [OF fh] show "sp_current (md_mark source st) = Some (g @ ''.'')" .
  from sp_current_qa_mark [OF fh] show "sp_current (qa_mark source st) = Some (g @ ''.'')" .
next
  assume h: "main_header analysis line = Some g \<and> (\<forall>l \<in> set post. main_header analysis l = None)"
  then have "List.map_filter (main_header analysis) (pre @ line # post) =
               List.map_filter (main_header analysis) pre @ [g]"
    using map_filter_all_None [of post "main_header analysis"]
    by (simp add: map_filter_append List.map_filter_def)
  with assms have ms: "main_sections analysis source =
      map (\<lambda>g. g @ ''.'') (List.map_filter (main_header analysis) pre) @ [g @ ''.'']"
    by (simp add: main_sections_def)
  then have "main_sections analysis source \<noteq> []" by simp
  from current_section_mark_headers [OF this] ms
  show "current_section (mark_headers analysis cfg source st') = Some (g @ ''.'')"
    by simp
qed

text \<open>
  A cell with the header of section 1 and then the header of section 2: the specialised
  graders enter section 1, the default grader section 2.
\<close>

theorem first_header_line_wins_witness:
  "sp_current (md_mark two_headers initial_special) = Some ''1.'' \<and>
   sp_current (qa_mark two_headers initial_special) = Some ''1.'' \<and>
   current_section (mark_headers False rubric_two two_headers initial_tracking) = Some ''2.''"
proof -
  have a: "split_nl two_headers = [] @ ''# 1. One'' # [''# 2. Two'']"
    by code_simp
  have b: "split_nl two_headers = [''# 1. One''] @ ''# 2. Two'' # []"
    by code_simp
  have c: "startswith ''# 1. One'' ''#'' \<and> re_simple (py_strip ''# 1. One'') = Some ''1''"
    by code_simp
  have d: "main_header False ''# 2. Two'' = Some ''2''"
    by code_simp
  from first_header_line_wins [OF a, where g = "''1''" and st = initial_special] c
  have "sp_current (md_mark two_headers initial_special) = Some ''1.'' \<and>
        sp_current (qa_mark two_headers initial_special) = Some ''1.''"
    by simp
  moreover from first_header_line_wins
    [OF b, where analysis = False and g = "''2''" and cfg = rubric_two and st' = initial_tracking] d
  have "current_section (mark_headers False rubric_two two_headers initial_tracking) = Some ''2.''"
    by simp
  ultimately show ?thesis by simp
qed


section \<open>The question/answer grader: a question with no colon\<close>

text \<open>
  C9. Take a cell whose trimmed text begins with \<^verbatim>\<open>Question\<close> and has no colon, and
  let \<open>st1\<close> be the state after the header update of that cell, with a current section
  \<open>k\<close> that is in the rubric and has a unit counter \<open>n\<close>. The loop body then only
  increments that counter: the completed counts and the missed lists of \<open>st1\<close> are
  unchanged. So there are a document and a rubric for which the completed count plus the
  length of the missed list is less than the counted units of a section.
\<close>

theorem question_without_colon_only_counted:
  assumes "cell_source cell = Inr joined"
      and "py_getitem cell ''cell_type'' = Inr cell_type"
      and "st1 = (if cell_type = JStr ''markdown'' then qa_mark (py_strip joined) st else st)"
      and "sp_current st1 = Some k" and "k \<noteq> []" and "in_rubric cfg k"
      and "section_cell_counts st1 k = Some n"
      and "startswith (py_strip joined) ''Question''"
      and "CHR '':'' \<notin> set (py_strip joined)"
  shows "qa_cell cfg cell st =
           Inr (st1\<lparr>section_cell_counts := (section_cell_counts st1)(k \<mapsto> Suc n)\<rparr>) \<and>
         (\<exists>notebook rubric final key ms.
            qa_scan notebook rubric = Inr final \<and> sp_missed final (Some key) = Some ms \<and>
            get0 (section_completed final) key + length ms < get0 (section_cell_counts final) key)"
proof
  from assms(9) have "py_find (py_strip joined) CHR '':'' = None"
    by (simp add: py_find_None)
  with assms(1-8)
  show "qa_cell cfg cell st =
          Inr (st1\<lparr>section_cell_counts := (section_cell_counts st1)(k \<mapsto> Suc n)\<rparr>)"
    by (simp add: qa_cell_def qa_count_def Let_def)
next
  have "\<not> isl (qa_scan notebook_qa rubric_qa)"
    by code_simp
  then have a: "qa_scan notebook_qa rubric_qa = Inr (projr (qa_scan notebook_qa rubric_qa))"
    by simp
  have b: "sp_missed (projr (qa_scan notebook_qa rubric_qa)) (Some ''1.'') = Some [2]"
    by code_simp
  have c: "get0 (section_completed (projr (qa_scan notebook_qa rubric_qa))) ''1.'' = 1"
    by code_simp
  have d: "get0 (section_cell_counts (projr (qa_scan notebook_qa rubric_qa))) ''1.'' = 3"
    by code_simp
  from a b c d
  have "qa_scan notebook_qa rubric_qa = Inr (projr (qa_scan notebook_qa rubric_qa)) \<and>
        sp_missed (projr (qa_scan notebook_qa rubric_qa)) (Some ''1.'') = Some [2] \<and>
        get0 (section_completed (projr (qa_scan notebook_qa rubric_qa))) ''1.'' + length [2::nat]
          < get0 (section_cell_counts (projr (qa_scan notebook_qa rubric_qa))) ''1.''"
    by simp
  then show "\<exists>notebook rubric final key ms.
            qa_scan notebook rubric = Inr final \<and> sp_missed final (Some key) = Some ms \<and>
            get0 (section_completed final) key + length ms < get0 (section_cell_counts final) key"
    by blast
qed

text \<open>The third question of \<open>notebook_qa\<close>, in the state after the header cell.\<close>

theorem question_without_colon_only_counted_witness:
  "qa_cell rubric_qa (text_cell ''markdown'' ''Question 3'') after_header =
     Inr (after_header\<lparr>section_cell_counts := (section_cell_counts after_header)(''1.'' \<mapsto> 1)\<rparr>)"
proof -
  have a: "cell_source (text_cell ''markdown'' ''Question 3'') = Inr ''Question 3''"
    by code_simp
  have b: "py_getitem (text_cell ''markdown'' ''Question 3'') ''cell_type'' = Inr (JStr ''markdown'')"
    by code_simp
  have s: "py_strip ''Question 3'' = ''Question 3''"
    by code_simp
  have nh: "first_header (split_nl ''Question 3'') = None"
    by code_simp
  have c: "after_header = (if JStr ''markdown'' = JStr ''markdown''
             then qa_mark (py_strip ''Question 3'') after_header else after_header)"
    unfolding s qa_mark_def nh by simp
  have d: "sp_current after_header = Some ''1.''"
    unfolding after_header_def by code_simp
  have e: "''1.'' \<noteq> []" by simp
  have f: "in_rubric rubric_qa ''1.''"
    by code_simp
  have g: "section_cell_counts after_header ''1.'' = Some 0"
    unfolding after_header_def by code_simp
  have h: "startswith (py_strip ''Question 3'') ''Question''"
    by code_simp
  have i: "CHR '':'' \<notin> set (py_strip ''Question 3'')"
    by code_simp
  from question_without_colon_only_counted [OF a b c d e f g h i]
  show ?thesis by simp
qed


section \<open>The markdown-exercise grader: the exercise unit\<close>

lemma md_inv_initial: "md_inv initial_special"
  by (simp add: md_inv_def initial_special_def)

lemma md_mark_inv: "md_inv st \<Longrightarrow> md_inv (md_mark source st)"
  by (auto simp: md_inv_def md_mark_def Let_def split: option.splits)

lemma md_count_code_inv:
  assumes "md_count_code cur cell st = Inr st'" and "md_inv st"
  shows "md_inv st'"
  using assms
  by (auto simp: md_count_code_def md_inv_def Let_def pybind_eq_Inr
           split: option.splits if_splits)

lemma md_first_cell_inv:
  assumes "md_first_cell cfg cell st = Inr st'" and "md_inv st"
  shows "md_inv st'"
  using assms
  by (auto simp: md_first_cell_def pybind_eq_Inr split: if_splits option.splits
           dest: md_count_code_inv md_mark_inv)

lemma first_pass_inv:
  assumes "run_cells (md_first_cell cfg) cells initial_special = Inr st"
  shows "md_inv st"
  using assms
  by (rule run_cells_invariant_on) (auto intro: md_inv_initial md_first_cell_inv)

text \<open>The second loop runs to the first cell with the sentence and stops there.\<close>

lemma second_pass_skip:
  assumes "\<not> is_trigger cell" and "second_pass cells idx (cell # rest) st = Inr st'"
  shows "second_pass cells (Suc idx) rest st = Inr st'"
  using assms
  by (auto simp: is_trigger_def pybind_eq_Inr split: sum.splits if_splits)

lemma second_pass_hit:
  assumes "is_trigger cell"
  shows "second_pass cells idx (cell # rest) st = exercise_check cells idx st"
  using assms
  by (auto simp: is_trigger_def split: sum.splits)

lemma second_pass_first_trigger:
  assumes "second_pass cells idx (drop idx cells) st = Inr st'"
      and "idx \<le> i" and "i < length cells" and "is_trigger (cells ! i)"
      and "\<forall>j. idx \<le> j \<and> j < i \<longrightarrow> \<not> is_trigger (cells ! j)"
  shows "exercise_check cells i st = Inr st'"
  using assms
proof (induction "i - idx" arbitrary: idx)
  case 0
  then have "idx = i" by simp
  with 0 have "second_pass cells i (cells ! i # drop (Suc i) cells) st = Inr st'"
    by (simp add: Cons_nth_drop_Suc)
  with second_pass_hit [OF 0(5)] show ?case by simp
next
  case (Suc d)
  then have lt: "idx < i" by simp
  with Suc.prems(3) have "idx < length cells" by simp
  then have dr: "drop idx cells = cells ! idx # drop (Suc idx) cells"
    by (simp add: Cons_nth_drop_Suc)
  from Suc.prems(5) lt have "\<not> is_trigger (cells ! idx)" by simp
  from second_pass_skip [OF this] Suc.prems(1) dr
  have next_run: "second_pass cells (Suc idx) (drop (Suc idx) cells) st = Inr st'"
    by simp
  have "d = i - Suc idx" using Suc.hyps(2) by simp
  moreover have "Suc idx \<le> i" using lt by simp
  moreover have "\<forall>j. Suc idx \<le> j \<and> j < i \<longrightarrow> \<not> is_trigger (cells ! j)"
    using Suc.prems(5) by simp
  ultimately show ?case
    using Suc.hyps(1) [of "Suc idx"] next_run Suc.prems(3,4) by blast
qed

lemma has_content_markdown_nonempty:
  assumes "has_content cell = Inr True"
      and "py_getitem cell ''cell_type'' = Inr (JStr ''markdown'')"
  shows "\<exists>joined. cell_source cell = Inr joined \<and> py_strip joined \<noteq> []"
proof -
  from assms(1) obtain joined where j: "cell_source cell = Inr joined"
    by (auto simp: has_content_def pybind_eq_Inr)
  have "py_strip joined \<noteq> []"
  proof
    assume "py_strip joined = []"
    with assms j show False
      by (simp add: has_content_def startswith_def)
  qed
  with j show ?thesis by blast
qed

text \<open>
  C8. Let the first loop end in the state \<open>st\<close> and the second loop in \<open>st'\<close>, and let
  position \<open>i\<close> hold the first markdown cell with the instructional sentence. If
  \<open>i > 0\<close>, cell \<open>i - 1\<close> is a markdown cell that the unit classifier finds complete
  (its trimmed source is then non-empty) and the section current at the end of the first
  loop has a completed code cell, the completed count of that section goes up by one.
  Otherwise no completed count changes. In both cases every missed list is empty after
  the second loop, and the current section has one.
\<close>

theorem exercise_unit_rule:
  assumes "run_cells (md_first_cell cfg) cells initial_special = Inr st"
      and "second_pass cells 0 cells st = Inr st'"
      and "i < length cells" and "is_trigger (cells ! i)"
      and "\<forall>j<i. \<not> is_trigger (cells ! j)"
  shows "(if 0 < i \<and> py_getitem (cells ! (i - 1)) ''cell_type'' = Inr (JStr ''markdown'') \<and>
             has_content (cells ! (i - 1)) = Inr True \<and> 0 < code_completed_current st
          then \<exists>k m. sp_current st = Some k \<and> section_completed st k = Some m \<and>
                     section_completed st' = (section_completed st)(k \<mapsto> Suc m) \<and>
                     (\<exists>joined. cell_source (cells ! (i - 1)) = Inr joined \<and> py_strip joined \<noteq> [])
          else section_completed st' = section_completed st) \<and>
         (\<forall>key ms. sp_missed st' key = Some ms \<longrightarrow> ms = []) \<and>
         (\<forall>k. sp_current st = Some k \<longrightarrow> sp_missed st' (Some k) = Some [])"
proof -
  define granted where "granted \<longleftrightarrow>
      0 < i \<and> py_getitem (cells ! (i - 1)) ''cell_type'' = Inr (JStr ''markdown'') \<and>
      has_content (cells ! (i - 1)) = Inr True \<and> 0 < code_completed_current st"
  have inv: "md_inv st"
    using assms(1) by (rule first_pass_inv)
  have chk: "exercise_check cells i st = Inr st'"
    using second_pass_first_trigger [of cells 0 st st' i] assms(2-5) by simp
  have cur: "sp_current st = Some k \<Longrightarrow> sp_missed st (Some k) = Some []" for k
    using inv by (fastforce simp: md_inv_def)
  have empties: "\<forall>key ms. sp_missed st key = Some ms \<longrightarrow> ms = []"
    using inv by (simp add: md_inv_def)
  show ?thesis
  proof (cases granted)
    case True
    with granted_def have g: "0 < i"
      "py_getitem (cells ! (i - 1)) ''cell_type'' = Inr (JStr ''markdown'')"
      "has_content (cells ! (i - 1)) = Inr True" "0 < code_completed_current st"
      by simp_all
    from g(4) obtain k where k: "sp_current st = Some k"
      by (auto simp: code_completed_current_def split: option.splits)
    with inv obtain m where m: "section_completed st k = Some m"
      by (auto simp: md_inv_def)
    from has_content_markdown_nonempty [OF g(3) g(2)]
    obtain joined where j: "cell_source (cells ! (i - 1)) = Inr joined" "py_strip joined \<noteq> []"
      by blast
    from chk g k m j(1)
    have st': "st' = st\<lparr>section_completed := (section_completed st)(k \<mapsto> Suc m)\<rparr>"
      by (simp add: exercise_check_def Let_def)
    with True k m j cur empties show ?thesis
      unfolding granted_def [symmetric] by auto
  next
    case False
    from chk have "st' = st \<or> st' = st\<lparr>sp_missed := (sp_missed st)(sp_current st \<mapsto> [])\<rparr>"
      using False granted_def
      by (auto simp: exercise_check_def Let_def pybind_eq_Inr split: if_splits option.splits)
    with False cur empties show ?thesis
      unfolding granted_def [symmetric] by (auto split: if_splits)
  qed
qed


text \<open>
  In \<open>cells_md_done\<close> the sentence is at position 3 after a filled markdown cell and
  the unit is granted; in \<open>cells_md_skipped\<close> it is at position 2 after a code cell and
  the count stays.
\<close>

theorem exercise_unit_rule_witness:
  "(\<exists>st st'. run_cells (md_first_cell rubric_md) cells_md_done initial_special = Inr st \<and>
      second_pass cells_md_done 0 cells_md_done st = Inr st' \<and>
      section_completed st ''1.'' = Some 1 \<and> section_completed st' ''1.'' = Some 2 \<and>
      sp_missed st' (Some ''1.'') = Some []) \<and>
   (\<exists>st st'. run_cells (md_first_cell rubric_md) cells_md_skipped initial_special = Inr st \<and>
      second_pass cells_md_skipped 0 cells_md_skipped st = Inr st' \<and>
      section_completed st ''1.'' = Some 1 \<and> section_completed st' ''1.'' = Some 1 \<and>
      sp_missed st' (Some ''1.'') = Some [])"
proof
  have "case run_cells (md_first_cell rubric_md) cells_md_done initial_special of
          Inl _ \<Rightarrow> False
        | Inr st \<Rightarrow> sp_current st = Some ''1.'' \<and> section_completed st ''1.'' = Some 1 \<and>
            0 < code_completed_current st \<and>
            \<not> isl (second_pass cells_md_done 0 cells_md_done st)"
    by code_simp
  then obtain st where a: "run_cells (md_first_cell rubric_md) cells_md_done initial_special = Inr st"
    and st: "sp_current st = Some ''1.''" "section_completed st ''1.'' = Some 1"
      "0 < code_completed_current st"
    and ok: "\<not> isl (second_pass cells_md_done 0 cells_md_done st)"
    by (cases "run_cells (md_first_cell rubric_md) cells_md_done initial_special") auto
  from ok obtain st' where b: "second_pass cells_md_done 0 cells_md_done st = Inr st'"
    by (cases "second_pass cells_md_done 0 cells_md_done st") auto
  have c: "3 < length cells_md_done"
    by (simp add: cells_md_done_def)
  have d: "is_trigger (cells_md_done ! 3)"
    by code_simp
  have "\<not> is_trigger (cells_md_done ! 0) \<and> \<not> is_trigger (cells_md_done ! Suc 0) \<and>
        \<not> is_trigger (cells_md_done ! Suc (Suc 0))"
    by code_simp
  then have e: "\<forall>j<3. \<not> is_trigger (cells_md_done ! j)"
    by (simp add: numeral_3_eq_3 All_less_Suc)
  have g: "py_getitem (cells_md_done ! (3 - 1)) ''cell_type'' = Inr (JStr ''markdown'') \<and>
           has_content (cells_md_done ! (3 - 1)) = Inr True"
    by code_simp
  from exercise_unit_rule [OF a b c d e] g st
  have "section_completed st' = (section_completed st)(''1.'' \<mapsto> Suc 1) \<and>
        sp_missed st' (Some ''1.'') = Some []"
    by auto
  with a b st show "\<exists>st st'. run_cells (md_first_cell rubric_md) cells_md_done initial_special = Inr st \<and>
      second_pass cells_md_done 0 cells_md_done st = Inr st' \<and>
      section_completed st ''1.'' = Some 1 \<and> section_completed st' ''1.'' = Some 2 \<and>
      sp_missed st' (Some ''1.'') = Some []"
    by auto
next
  have "case run_cells (md_first_cell rubric_md) cells_md_skipped initial_special of
          Inl _ \<Rightarrow> False
        | Inr st \<Rightarrow> sp_current st = Some ''1.'' \<and> section_completed st ''1.'' = Some 1 \<and>
            \<not> isl (second_pass cells_md_skipped 0 cells_md_skipped st)"
    by code_simp
  then obtain st where a: "run_cells (md_first_cell rubric_md) cells_md_skipped initial_special = Inr st"
    and st: "sp_current st = Some ''1.''" "section_completed st ''1.'' = Some 1"
    and ok: "\<not> isl (second_pass cells_md_skipped 0 cells_md_skipped st)"
    by (cases "run_cells (md_first_cell rubric_md) cells_md_skipped initial_special") auto
  from ok obtain st' where b: "second_pass cells_md_skipped 0 cells_md_skipped st = Inr st'"
    by (cases "second_pass cells_md_skipped 0 cells_md_skipped st") auto
  have c: "2 < length cells_md_skipped"
    by (simp add: cells_md_skipped_def)
  have d: "is_trigger (cells_md_skipped ! 2)"
    by code_simp
  have "\<not> is_trigger (cells_md_skipped ! 0) \<and> \<not> is_trigger (cells_md_skipped ! Suc 0)"
    by code_simp
  then have e: "\<forall>j<2. \<not> is_trigger (cells_md_skipped ! j)"
    by (simp add: numeral_2_eq_2 All_less_Suc)
  have g: "py_getitem (cells_md_skipped ! (2 - 1)) ''cell_type'' \<noteq> Inr (JStr ''markdown'')"
    by code_simp
  from exercise_unit_rule [OF a b c d e] g st
  have "section_completed st' = section_completed st \<and> sp_missed st' (Some ''1.'') = Some []"
    by auto
  with a b st show "\<exists>st st'. run_cells (md_first_cell rubric_md) cells_md_skipped initial_special = Inr st \<and>
      second_pass cells_md_skipped 0 cells_md_skipped st = Inr st' \<and>
      section_completed st ''1.'' = Some 1 \<and> section_completed st' ''1.'' = Some 1 \<and>
      sp_missed st' (Some ''1.'') = Some []"
    by auto
qed

section \<open>The entry point: documents that cannot be graded\<close>

lemma run_cells_raises:
  assumes "cell \<in> set cells" and "\<And>s. isl (body cell s)"
  shows "isl (run_cells body cells st)"
  using assms(1)
proof (induction cells arbitrary: st)
  case Nil
  then show ?case by simp
next
  case (Cons c cells)
  show ?case
  proof (cases "body c st")
    case (Inl e)
    then show ?thesis by simp
  next
    case (Inr s1)
    show ?thesis
    proof (cases "c = cell")
      case True
      with assms(2) [of st] Inr show ?thesis by simp
    next
      case False
      with Cons.prems have "cell \<in> set cells" by simp
      from Cons.IH [OF this] Inr show ?thesis by simp
    qed
  qed
qed

lemma enhanced_cell_no_type:
  "isl (py_getitem cell ''cell_type'') \<Longrightarrow> isl (enhanced_cell analysis cfg cell st)"
  by (simp add: enhanced_cell_def isl_pybind)

lemma md_first_cell_no_type:
  "isl (py_getitem cell ''cell_type'') \<Longrightarrow> isl (md_first_cell cfg cell st)"
  by (simp add: md_first_cell_def isl_pybind)

lemma qa_cell_no_type:
  "isl (py_getitem cell ''cell_type'') \<Longrightarrow> isl (qa_cell cfg cell st)"
  by (cases "cell_source cell") (simp_all add: qa_cell_def isl_pybind Let_def)

lemma unreadable_cases:
  assumes "unreadable notebook"
  obtains (not_object) "isl (py_getitem notebook ''cells'')" "isl (py_get notebook ''cells'' (JArr []))"
  | (not_iterable) cs where "py_getitem notebook ''cells'' = Inr cs"
      "py_get notebook ''cells'' (JArr []) = Inr cs" "isl (py_iter cs)"
  | (bad_cell) cs cells cell where "py_getitem notebook ''cells'' = Inr cs"
      "py_get notebook ''cells'' (JArr []) = Inr cs" "py_iter cs = Inr cells"
      "cell \<in> set cells" "isl (py_getitem cell ''cell_type'')"
proof (cases notebook)
  case (JObj items)
  with assms obtain cs where cs: "map_of items ''cells'' = Some cs"
    by (auto simp: unreadable_def split: option.splits)
  with JObj have g: "py_getitem notebook ''cells'' = Inr cs"
    "py_get notebook ''cells'' (JArr []) = Inr cs"
    by (simp_all add: py_getitem_def py_get_def)
  show ?thesis
  proof (cases "py_iter cs")
    case (Inl e)
    with g not_iterable show ?thesis by simp
  next
    case (Inr cells)
    with assms JObj cs obtain cell where "cell \<in> set cells" "isl (py_getitem cell ''cell_type'')"
      by (auto simp: unreadable_def list_ex_iff)
    with g Inr bad_cell show ?thesis by blast
  qed
qed (use assms not_object in \<open>simp_all add: py_getitem_def py_get_def\<close>)

lemma scan_enhanced_unreadable:
  assumes "unreadable notebook"
  shows "isl (scan_enhanced notebook cfg)"
  using assms
proof (cases rule: unreadable_cases)
  case not_object
  then show ?thesis by (simp add: scan_enhanced_def isl_pybind)
next
  case (not_iterable cs)
  then show ?thesis by (simp add: scan_enhanced_def isl_pybind)
next
  case (bad_cell cs cells cell)
  from run_cells_raises [OF bad_cell(4), of "enhanced_cell (is_analysis_notebook cfg) cfg"]
    enhanced_cell_no_type [OF bad_cell(5)]
  have "isl (run_cells (enhanced_cell (is_analysis_notebook cfg) cfg) cells initial_tracking)"
    by blast
  with bad_cell(1,3) show ?thesis by (simp add: scan_enhanced_def)
qed

lemma md_scan_unreadable:
  assumes "unreadable notebook"
  shows "isl (md_scan notebook cfg)"
  using assms
proof (cases rule: unreadable_cases)
  case not_object
  then show ?thesis by (simp add: md_scan_def isl_pybind)
next
  case (not_iterable cs)
  then show ?thesis by (simp add: md_scan_def isl_pybind)
next
  case (bad_cell cs cells cell)
  from run_cells_raises [OF bad_cell(4), of "md_first_cell cfg"]
    md_first_cell_no_type [OF bad_cell(5)]
  have "isl (run_cells (md_first_cell cfg) cells initial_special)"
    by blast
  with bad_cell(1,3) show ?thesis by (simp add: md_scan_def isl_pybind)
qed

lemma qa_scan_unreadable:
  assumes "unreadable notebook"
  shows "isl (qa_scan notebook cfg)"
  using assms
proof (cases rule: unreadable_cases)
  case not_object
  then show ?thesis by (simp add: qa_scan_def isl_pybind)
next
  case (not_iterable cs)
  then show ?thesis by (simp add: qa_scan_def isl_pybind)
next
  case (bad_cell cs cells cell)
  from run_cells_raises [OF bad_cell(4), of "qa_cell cfg"]
    qa_cell_no_type [OF bad_cell(5)]
  have "isl (run_cells (qa_cell cfg) cells initial_special)"
    by blast
  with bad_cell(2,3) show ?thesis by (simp add: qa_scan_def)
qed

lemma dispatch_special_raises:
  assumes "isl (grade_markdown_exercise_01 notebook cfg)"
      and "isl (grade_question_answer notebook cfg)"
  shows "case dispatch_special items notebook cfg of None \<Rightarrow> True | Some outcome \<Rightarrow> isl outcome"
  using assms
  by (induction items notebook cfg rule: dispatch_special.induct)
     (auto split: option.splits sum.splits)

lemma select_grader_unreadable:
  assumes "unreadable notebook"
  shows "isl (select_grader notebook cfg)"
proof -
  have e: "isl (grade_notebook_enhanced notebook cfg)"
    using scan_enhanced_unreadable [OF assms] by (simp add: grade_notebook_enhanced_def isl_pybind)
  have m: "isl (grade_markdown_exercise_01 notebook cfg)"
    using md_scan_unreadable [OF assms] by (simp add: grade_markdown_exercise_01_def isl_pybind)
  have q: "isl (grade_question_answer notebook cfg)"
    using qa_scan_unreadable [OF assms] by (simp add: grade_question_answer_def isl_pybind)
  from dispatch_special_raises [OF m q, of "sections cfg"] e show ?thesis
    by (auto simp: select_grader_def split: option.splits)
qed

text \<open>
  C6 as stated fails: no grader checks the shape of the document, and a structural
  defect that no step of the selected grader runs into goes unnoticed. Both example
  documents are graded as if they had no gradable cell.
\<close>

theorem invalid_document_graded_counterexample:
  "\<not> structurally_valid notebook_cells_object \<and>
   r_sections (grade_notebook (Inr notebook_cells_object) rubric_two) ''1.'' =
     Some (Split_score 0 0 0 2 1 3) \<and>
   r_issues (grade_notebook (Inr notebook_cells_object) rubric_two) = None \<and>
   \<not> structurally_valid notebook_bad_source \<and>
   r_sections (grade_notebook (Inr notebook_bad_source) rubric_two) ''1.'' =
     Some (Split_score 0 0 0 2 1 3) \<and>
   r_issues (grade_notebook (Inr notebook_bad_source) rubric_two) = None"
  unfolding grade_notebook_def select_grader_def grade_notebook_enhanced_def scan_enhanced_def
    rubric_two_dialect
  by code_simp


text \<open>
  C6, amended. When the file cannot be loaded or parsed, or the document is unreadable
  (its top level is not an object, its \<^verbatim>\<open>cells\<close> cannot be iterated, or a cell is not
  an object or has no \<^verbatim>\<open>cell_type\<close>), \<^verbatim>\<open>grade_notebook\<close> does not raise: it
  returns no sections, zero points and one message, whichever grader the rubric selects.
\<close>

theorem grade_notebook_error_result:
  assumes "isl loaded \<or> (\<exists>notebook. loaded = Inr notebook \<and> unreadable notebook)"
  shows "\<exists>e. grade_notebook loaded cfg =
               \<lparr>r_sections = Map.empty, r_total_points = 0, r_missed_indices = None,
                r_issues = Some [''Error processing notebook: '' @ error_text e]\<rparr>"
proof -
  have "isl (pybind loaded (\<lambda>notebook. select_grader notebook cfg))"
    using assms select_grader_unreadable by (auto simp: isl_pybind)
  then obtain e where "pybind loaded (\<lambda>notebook. select_grader notebook cfg) = Inl e"
    by (auto simp: isl_def)
  then have "grade_notebook loaded cfg = error_result e"
    by (simp add: grade_notebook_def)
  then show ?thesis
    by (auto simp: error_result_def)
qed

text \<open>A file that does not load, and a document with a cell that has no kind.\<close>

theorem grade_notebook_error_result_witness:
  "grade_notebook (Inl LoadError) rubric_two =
     \<lparr>r_sections = Map.empty, r_total_points = 0, r_missed_indices = None,
      r_issues = Some [''Error processing notebook: LoadError'']\<rparr> \<and>
   grade_notebook (Inr notebook_no_type) rubric_qa =
     \<lparr>r_sections = Map.empty, r_total_points = 0, r_missed_indices = None,
      r_issues = Some [''Error processing notebook: KeyError'']\<rparr>"
proof -
  have a: "isl (Inl LoadError :: json result) \<or>
           (\<exists>notebook. (Inl LoadError :: json result) = Inr notebook \<and> unreadable notebook)"
    by simp
  have "unreadable notebook_no_type"
    by code_simp
  then have b: "isl (Inr notebook_no_type :: json result) \<or>
           (\<exists>notebook. (Inr notebook_no_type :: json result) = Inr notebook \<and> unreadable notebook)"
    by simp
  have c: "r_issues (grade_notebook (Inl LoadError) rubric_two) =
             Some [''Error processing notebook: LoadError'']"
    by code_simp
  have d: "r_issues (grade_notebook (Inr notebook_no_type) rubric_qa) =
             Some [''Error processing notebook: KeyError'']"
    by code_simp
  from grade_notebook_error_result [OF a, of rubric_two] c
  have "grade_notebook (Inl LoadError) rubric_two =
     \<lparr>r_sections = Map.empty, r_total_points = 0, r_missed_indices = None,
      r_issues = Some [''Error processing notebook: LoadError'']\<rparr>"
    by auto
  moreover from grade_notebook_error_result [OF b, of rubric_qa] d
  have "grade_notebook (Inr notebook_no_type) rubric_qa =
     \<lparr>r_sections = Map.empty, r_total_points = 0, r_missed_indices = None,
      r_issues = Some [''Error processing notebook: KeyError'']\<rparr>"
    by auto
  ultimately show ?thesis by simp
qed


end
